theory Spec2Isabelle
  imports Complex_Main
begin

section \<open>The feed generator: replaying a CSV file as a paced, append-only feed\<close>

text \<open>
  A shallow embedding of \<^verbatim>\<open>feed_generator.py\<close>. Conventions of the model:
  \<^item> Python floats are real numbers: arithmetic is exact, and the values \<^verbatim>\<open>inf\<close> and
    \<^verbatim>\<open>nan\<close> are outside the model. The literal \<^verbatim>\<open>1e-9\<close> is \<open>1 / 10 ^ 9\<close>.
  \<^item> The built-in \<^verbatim>\<open>float(x)\<close> is a parameter \<open>pyfloat\<close> of type
    \<open>string \<Rightarrow> real option\<close>: \<open>None\<close> stands for its \<^verbatim>\<open>ValueError\<close>. Every theorem holds
    for every such parser.
  \<^item> A file is seen through the \<^verbatim>\<open>csv\<close> module: the input as the list of records
    \<^verbatim>\<open>csv.reader\<close> yields (a blank line is the empty record), the output as the list of
    records handed to \<^verbatim>\<open>csv.writer\<close>. Quoting and line endings are below the model.
  \<^item> The world holds the node at the input path, the node at the output path, the
    buffered records of the open output file, and a trace of every effect in the order
    the program performs it. The two paths name different files.
  \<^item> \<^verbatim>\<open>time.sleep(d)\<close> raises \<^verbatim>\<open>OverflowError\<close> when the delay is larger than the
    interpreter can convert (CPython keeps it as a signed 64-bit count of nanoseconds,
    about \<^verbatim>\<open>9.2e9\<close> seconds). The world holds this bound, \<open>sleep_max\<close>; every theorem
    holds for every bound. Nothing in \<^verbatim>\<open>main\<close> catches the exception.
  \<^item> Writing, flushing and syncing the output never fail.
\<close>

subsection \<open>Strings\<close>

text \<open>The ASCII characters that \<^verbatim>\<open>str.strip()\<close> removes.\<close>

definition is_space :: "char \<Rightarrow> bool" where
  "is_space c =
     (let n = (of_char c :: nat) in n = 32 \<or> (9 \<le> n \<and> n \<le> 13) \<or> (28 \<le> n \<and> n \<le> 31))"

definition strip :: "string \<Rightarrow> string" where
  "strip s = rev (dropWhile is_space (rev (dropWhile is_space s)))"

subsection \<open>Dictionaries in insertion order\<close>

text \<open>
  \<^verbatim>\<open>d[k] = v\<close>: an existing key keeps its position and takes the new value, a new key goes
  to the end.
\<close>

fun dict_set :: "'k \<Rightarrow> 'v \<Rightarrow> ('k \<times> 'v) list \<Rightarrow> ('k \<times> 'v) list" where
  "dict_set k v [] = [(k, v)]"
| "dict_set k v (p # d) = (if fst p = k then (k, v) # d else p # dict_set k v d)"

text \<open>\<^verbatim>\<open>dict(pairs)\<close>: the pairs are stored from left to right.\<close>

definition dict_of :: "('k \<times> 'v) list \<Rightarrow> ('k \<times> 'v) list" where
  "dict_of ps = foldl (\<lambda>d p. dict_set (fst p) (snd p) d) [] ps"

subsection \<open>Rows as \<^verbatim>\<open>csv.DictReader\<close> builds them\<close>

text \<open>
  A row maps column names to a string or to \<^verbatim>\<open>None\<close> (the \<^verbatim>\<open>restval\<close> of a short
  record); the surplus values of a long record are stored as a list under the key
  \<^verbatim>\<open>None\<close> (the \<^verbatim>\<open>restkey\<close>), which is inserted last. The reader builds a row from a
  record \<^verbatim>\<open>row\<close> by
  \<^verbatim>\<open>d = dict(zip(self.fieldnames, row)); lf = len(self.fieldnames); lr = len(row)\<close>, then
  \<^verbatim>\<open>d[self.restkey] = row[lf:]\<close> if \<^verbatim>\<open>lf < lr\<close>, and \<^verbatim>\<open>d[key] = self.restval\<close> for every
  \<^verbatim>\<open>key\<close> of \<^verbatim>\<open>self.fieldnames[lr:]\<close> if \<^verbatim>\<open>lf > lr\<close>.
\<close>

record row =
  named :: "(string \<times> string option) list"
  restkey :: "string list option"

definition dictreader_next :: "string list \<Rightarrow> string list \<Rightarrow> row" where
  "dictreader_next fieldnames r =
     (let d = dict_of (zip fieldnames (map Some r));
          lf = length fieldnames;
          lr = length r
      in if lf < lr then \<lparr>named = d, restkey = Some (drop lf r)\<rparr>
         else if lf > lr then
           \<lparr>named = foldl (\<lambda>d k. dict_set k None d) d (drop lr fieldnames), restkey = None\<rparr>
         else \<lparr>named = d, restkey = None\<rparr>)"

text \<open>\<^verbatim>\<open>list(reader)\<close>: blank records are skipped, every other record becomes a row.\<close>

definition dictreader_rows :: "string list \<Rightarrow> string list list \<Rightarrow> row list" where
  "dictreader_rows fieldnames recs =
     map (dictreader_next fieldnames) (filter (\<lambda>r. r \<noteq> []) recs)"

text \<open>\<^verbatim>\<open>row.keys()\<close> and \<^verbatim>\<open>row.get(k)\<close> for a column name \<open>k\<close>.\<close>

definition row_keys :: "row \<Rightarrow> string option list" where
  "row_keys r =
     map (\<lambda>p. Some (fst p)) (named r) @ (case restkey r of None \<Rightarrow> [] | Some _ \<Rightarrow> [None])"

definition row_get :: "row \<Rightarrow> string \<Rightarrow> string option" where
  "row_get r k = (case map_of (named r) k of None \<Rightarrow> None | Some v \<Rightarrow> v)"

subsection \<open>The loader\<close>

text \<open>
  The node at the input path: no file, a file whose opening or parsing raises (with the
  message of the exception), or the records of a readable file.
\<close>

datatype input_node = Missing | Unreadable string | Records "string list list"

definition read_all_rows :: "input_node \<Rightarrow> string + row list" where
  "read_all_rows node =
     (case node of
        Missing \<Rightarrow> Inl ''[Errno 2] No such file or directory''
      | Unreadable e \<Rightarrow> Inl e
      | Records recs \<Rightarrow>
          (case recs of
             [] \<Rightarrow> Inl ''Input CSV has no header.''
           | fieldnames # rest \<Rightarrow>
               if fieldnames = [] then Inl ''Input CSV has no header.''
               else
                 let rows = dictreader_rows fieldnames rest
                 in if rows = [] then Inl ''Input CSV has no data rows.'' else Inr rows))"

subsection \<open>Pacing\<close>

definition safe_float :: "(string \<Rightarrow> real option) \<Rightarrow> string option \<Rightarrow> real option" where
  "safe_float pyfloat x =
     (case x of
        None \<Rightarrow> None
      | Some s \<Rightarrow> (let x' = strip s in if x' = [] then None else pyfloat x'))"

definition compute_sleep_s :: "real option \<Rightarrow> real option \<Rightarrow> real \<Rightarrow> real" where
  "compute_sleep_s prev_time curr_time speed =
     (case prev_time of
        None \<Rightarrow> 0
      | Some p \<Rightarrow>
          (case curr_time of
             None \<Rightarrow> 0
           | Some c \<Rightarrow> (let dt = max 0 (c - p) in dt / max (1 / 10 ^ 9) speed)))"

subsection \<open>The world and its effects\<close>

datatype cell = Text string | NoneCell | ListCell "string list"

datatype message = Starting string string real | Reached_end

datatype event =
    Stderr string
  | Stdout message
  | Mkdir_parents string
  | Open_w string
  | Write "cell list"
  | Flush
  | Fsync
  | Sleep real
  | Close

record world =
  input_file :: input_node
  output_file :: "cell list list option"
  pending :: "cell list list"
  trace :: "event list"
  sleep_max :: real

text \<open>
  The exceptions that can leave \<^verbatim>\<open>main\<close>: the \<^verbatim>\<open>ValueError\<close> of the csv writer for keys
  that are no field names, \<^verbatim>\<open>IndexError\<close> and the \<^verbatim>\<open>OverflowError\<close> of \<^verbatim>\<open>time.sleep\<close>.
\<close>

datatype exn = Wrong_fields "string option list" | Index_error | Overflow_error

definition emit :: "event \<Rightarrow> world \<Rightarrow> world" where
  "emit e w = w\<lparr>trace := trace w @ [e]\<rparr>"

text \<open>\<^verbatim>\<open>path.parent.mkdir(parents=True, exist_ok=True)\<close>\<close>

definition ensure_parent_dir :: "string \<Rightarrow> world \<Rightarrow> world" where
  "ensure_parent_dir path w = emit (Mkdir_parents path) w"

text \<open>\<^verbatim>\<open>open("w")\<close>: the file exists and is empty from now on, with an empty buffer.\<close>

definition open_w :: "string \<Rightarrow> world \<Rightarrow> world" where
  "open_w path w = emit (Open_w path) (w\<lparr>output_file := Some [], pending := []\<rparr>)"

text \<open>A record written through the csv writer waits in the buffer of the file object.\<close>

definition write_record :: "cell list \<Rightarrow> world \<Rightarrow> world" where
  "write_record r w = emit (Write r) (w\<lparr>pending := pending w @ [r]\<rparr>)"

definition drain :: "world \<Rightarrow> world" where
  "drain w =
     w\<lparr>output_file := map_option (\<lambda>rs. rs @ pending w) (output_file w), pending := []\<rparr>"

definition flush :: "world \<Rightarrow> world" where
  "flush w = emit Flush (drain w)"

definition fsync :: "world \<Rightarrow> world" where
  "fsync w = emit Fsync w"

text \<open>
  \<^verbatim>\<open>time.sleep(d)\<close>: a delay above the bound raises before anything happens, any other
  delay is slept.
\<close>

definition sleep :: "real \<Rightarrow> world \<Rightarrow> exn + world" where
  "sleep d w = (if sleep_max w < d then Inl Overflow_error else Inr (emit (Sleep d) w))"

text \<open>Leaving the \<^verbatim>\<open>with\<close> block closes the file, which writes out its buffer.\<close>

definition close :: "world \<Rightarrow> world" where
  "close w = emit Close (drain w)"

subsection \<open>\<^verbatim>\<open>csv.DictWriter\<close>\<close>

text \<open>
  The value of a row at a field name, as \<^verbatim>\<open>rowdict.get(key, restval)\<close> with the default
  \<^verbatim>\<open>restval = ""\<close> gives it.
\<close>

definition cell_of :: "row \<Rightarrow> string option \<Rightarrow> cell" where
  "cell_of r key =
     (case key of
        Some k \<Rightarrow>
          (case map_of (named r) k of
             None \<Rightarrow> Text ''''
           | Some None \<Rightarrow> NoneCell
           | Some (Some s) \<Rightarrow> Text s)
      | None \<Rightarrow> (case restkey r of None \<Rightarrow> Text '''' | Some xs \<Rightarrow> ListCell xs))"

text \<open>
  \<^verbatim>\<open>_dict_to_list\<close> with \<^verbatim>\<open>extrasaction="raise"\<close>: a key of the row that is no field name
  raises \<^verbatim>\<open>ValueError\<close> (\<^verbatim>\<open>wrong_fields = rowdict.keys() - self.fieldnames\<close>); otherwise
  the record is \<^verbatim>\<open>rowdict.get(key, self.restval)\<close> for every \<^verbatim>\<open>key\<close> of the field names.
\<close>

definition dict_to_list :: "string option list \<Rightarrow> row \<Rightarrow> exn + cell list" where
  "dict_to_list fieldnames r =
     (let wrong_fields = filter (\<lambda>k. k \<notin> set fieldnames) (row_keys r)
      in if wrong_fields \<noteq> [] then Inl (Wrong_fields wrong_fields)
         else Inr (map (cell_of r) fieldnames))"

definition writerow :: "string option list \<Rightarrow> row \<Rightarrow> world \<Rightarrow> exn + world" where
  "writerow fieldnames r w =
     (case dict_to_list fieldnames r of
        Inl e \<Rightarrow> Inl e
      | Inr cells \<Rightarrow> Inr (write_record cells w))"

text \<open>
  \<^verbatim>\<open>writeheader\<close> writes the row \<^verbatim>\<open>dict(zip(fieldnames, fieldnames))\<close>: every field name
  under itself, so no key is wrong and the key \<^verbatim>\<open>None\<close> carries \<^verbatim>\<open>None\<close>.
\<close>

definition header_cell :: "string option \<Rightarrow> cell" where
  "header_cell key = (case key of Some k \<Rightarrow> Text k | None \<Rightarrow> NoneCell)"

definition writeheader :: "string option list \<Rightarrow> world \<Rightarrow> world" where
  "writeheader fieldnames w = write_record (map header_cell fieldnames) w"

subsection \<open>The replay loop and \<^verbatim>\<open>main\<close>\<close>

text \<open>
  The body of \<^verbatim>\<open>for row in rows\<close>: it returns the exception raised, if any (by
  \<^verbatim>\<open>time.sleep\<close> or by the csv writer), the new \<^verbatim>\<open>prev_t\<close> and the world.
\<close>

definition replay_row ::
  "(string \<Rightarrow> real option) \<Rightarrow> string option list \<Rightarrow> real \<Rightarrow> real option \<Rightarrow> row \<Rightarrow> world
    \<Rightarrow> exn option \<times> real option \<times> world" where
  "replay_row pyfloat fieldnames speed prev_t r w =
     (let curr_t = safe_float pyfloat (row_get r ''time'');
          sleep_s = compute_sleep_s prev_t curr_t speed
      in case (if sleep_s > 0 then sleep sleep_s w else Inr w) of
           Inl e \<Rightarrow> (Some e, prev_t, w)
         | Inr w1 \<Rightarrow>
             (case writerow fieldnames r w1 of
                Inl e \<Rightarrow> (Some e, prev_t, w1)
              | Inr w2 \<Rightarrow> (None, curr_t, fsync (flush w2))))"

fun replay_rows ::
  "(string \<Rightarrow> real option) \<Rightarrow> string option list \<Rightarrow> real \<Rightarrow> real option \<Rightarrow> row list \<Rightarrow> world
    \<Rightarrow> exn option \<times> world" where
  "replay_rows pyfloat fieldnames speed prev_t [] w = (None, w)"
| "replay_rows pyfloat fieldnames speed prev_t (r # rows) w =
     (case replay_row pyfloat fieldnames speed prev_t r w of
        (Some e, _, w') \<Rightarrow> (Some e, w')
      | (None, curr_t, w') \<Rightarrow> replay_rows pyfloat fieldnames speed curr_t rows w')"

text \<open>
  The parsed command line: the two paths as \<^verbatim>\<open>Path\<close> prints them, and the speed.
\<close>

record args =
  input_path :: string
  output_path :: string
  speed :: real

text \<open>
  \<open>Exit n\<close>: \<^verbatim>\<open>main\<close> returns \<open>n\<close>, which becomes the exit code of the process.
  \<open>Uncaught e\<close>: the exception \<open>e\<close> leaves \<^verbatim>\<open>main\<close>, and the process ends with a
  traceback and exit code 1.
\<close>

datatype outcome = Exit int | Uncaught exn

definition main :: "(string \<Rightarrow> real option) \<Rightarrow> args \<Rightarrow> world \<Rightarrow> outcome \<times> world" where
  "main pyfloat a w =
     (if speed a \<le> 0 then (Exit 2, emit (Stderr ''ERROR: --speed must be > 0.'') w)
      else if input_file w = Missing then
        (Exit 2, emit (Stderr (''ERROR: input file not found: '' @ input_path a)) w)
      else
        let w1 = ensure_parent_dir (output_path a) w
        in (case read_all_rows (input_file w1) of
             Inl e \<Rightarrow> (Exit 2, emit (Stderr (''ERROR: failed reading input CSV: '' @ e)) w1)
           | Inr rows \<Rightarrow>
               (case rows of
                  [] \<Rightarrow> (Uncaught Index_error, w1)
                | row0 # _ \<Rightarrow>
                    let fieldnames = row_keys row0
                    in if Some ''time'' \<notin> set fieldnames then
                         (Exit 2,
                          emit (Stderr ''ERROR: expected a 'time' column in the input CSV.'') w1)
                       else
                         let w2 = open_w (output_path a) w1;
                             w3 = fsync (flush (writeheader fieldnames w2));
                             w4 = emit (Stdout (Starting (input_path a) (output_path a) (speed a))) w3
                         in (case replay_rows pyfloat fieldnames (speed a) None rows w4 of
                               (Some e, w5) \<Rightarrow> (Uncaught e, close w5)
                             | (None, w5) \<Rightarrow>
                                 (Exit 0, close (emit (Stdout Reached_end) w5))))))"

subsection \<open>Datasets and sample values\<close>

text \<open>
  The Dataset of the data model: a header of unique column names that contains the
  pacing column \<^verbatim>\<open>time\<close>, at least one row, and in every row one value per column.
\<close>

definition valid_dataset :: "string list \<Rightarrow> string list list \<Rightarrow> bool" where
  "valid_dataset header data \<longleftrightarrow>
     distinct header \<and> ''time'' \<in> set header \<and> data \<noteq> [] \<and>
     (\<forall>r \<in> set data. length r = length header)"

text \<open>
  An instance of the parameter \<open>pyfloat\<close>, to run the program on concrete inputs: the
  value of \<^verbatim>\<open>float(x)\<close> on a non-empty string of decimal digits, and no value on any
  other string.
\<close>

definition is_digit :: "char \<Rightarrow> bool" where
  "is_digit c = (48 \<le> (of_char c :: nat) \<and> (of_char c :: nat) \<le> 57)"

definition float_of_digits :: "string \<Rightarrow> real option" where
  "float_of_digits s =
     (if s \<noteq> [] \<and> list_all is_digit s
      then Some (real (foldl (\<lambda>n c. 10 * n + (of_char c - 48)) 0 s))
      else None)"

section \<open>Lemmas about the model\<close>

subsection \<open>Effects, dictionaries and rows\<close>

lemmas effect_defs =
  emit_def drain_def flush_def fsync_def close_def open_w_def write_record_def
  ensure_parent_dir_def writeheader_def

lemma dict_set_keys: "fst ` set (dict_set k v d) = insert k (fst ` set d)"
  by (induction d) auto

lemma dict_set_fresh: "k \<notin> fst ` set d \<Longrightarrow> dict_set k v d = d @ [(k, v)]"
  by (induction d) auto

lemma foldl_dict_set_keys:
  "fst ` set (foldl (\<lambda>d p. dict_set (fst p) (snd p) d) acc ps) = fst ` set acc \<union> fst ` set ps"
  by (induction ps arbitrary: acc) (auto simp: dict_set_keys)

lemma foldl_dict_set_distinct:
  "distinct (map fst (acc @ ps)) \<Longrightarrow>
   foldl (\<lambda>d p. dict_set (fst p) (snd p) d) acc ps = acc @ ps"
proof (induction ps arbitrary: acc)
  case Nil
  then show ?case by simp
next
  case (Cons p ps)
  from Cons.prems have fresh: "fst p \<notin> fst ` set acc" by auto
  from Cons.prems have "distinct (map fst ((acc @ [p]) @ ps))" by simp
  then have "foldl (\<lambda>d p. dict_set (fst p) (snd p) d) (acc @ [p]) ps = (acc @ [p]) @ ps"
    by (rule Cons.IH)
  with fresh show ?case by (simp add: dict_set_fresh)
qed

lemma dict_of_keys: "fst ` set (dict_of ps) = fst ` set ps"
  by (simp add: dict_of_def foldl_dict_set_keys)

lemma dict_of_distinct: "distinct (map fst ps) \<Longrightarrow> dict_of ps = ps"
  using foldl_dict_set_distinct [of "[]" ps] by (simp add: dict_of_def)

lemma foldl_restval_keys:
  "fst ` set (foldl (\<lambda>d k. dict_set k v d) acc ks) = fst ` set acc \<union> set ks"
  by (induction ks arbitrary: acc) (auto simp: dict_set_keys)

lemma dictreader_next_names:
  "fst ` set (named (dictreader_next fieldnames r)) \<subseteq> set fieldnames"
proof -
  have "fst ` set (zip fieldnames (map Some r)) \<subseteq> set fieldnames"
    by (auto dest: set_zip_leftD)
  moreover have "set (drop (length r) fieldnames) \<subseteq> set fieldnames"
    by (rule set_drop_subset)
  ultimately show ?thesis
    by (auto simp: dictreader_next_def Let_def dict_of_keys foldl_restval_keys)
qed

lemma dictreader_next_no_time:
  "''time'' \<notin> set fieldnames \<Longrightarrow> Some ''time'' \<notin> set (row_keys (dictreader_next fieldnames r))"
  using dictreader_next_names [of fieldnames r]
  by (auto simp: row_keys_def split: option.splits)

lemma dictreader_next_regular:
  "distinct fieldnames \<Longrightarrow> length r = length fieldnames \<Longrightarrow>
   dictreader_next fieldnames r = \<lparr>named = zip fieldnames (map Some r), restkey = None\<rparr>"
  by (simp add: dictreader_next_def Let_def dict_of_distinct)

lemma map_keys_zip:
  "length xs = length ys \<Longrightarrow> map (\<lambda>p. g (fst p)) (zip xs ys) = map g xs"
  by (induction xs ys rule: list_induct2) auto

lemma row_keys_regular:
  "length r = length fieldnames \<Longrightarrow>
   row_keys \<lparr>named = zip fieldnames (map Some r), restkey = None\<rparr> = map Some fieldnames"
  by (simp add: row_keys_def map_keys_zip)

lemma cells_regular:
  assumes "distinct fieldnames" and "length r = length fieldnames"
  shows "map (cell_of \<lparr>named = zip fieldnames (map Some r), restkey = None\<rparr>)
           (map Some fieldnames) = map Text r"
proof (rule nth_equalityI)
  show "length (map (cell_of \<lparr>named = zip fieldnames (map Some r), restkey = None\<rparr>)
           (map Some fieldnames)) = length (map Text r)"
    using assms by simp
next
  fix i
  assume "i < length (map (cell_of \<lparr>named = zip fieldnames (map Some r), restkey = None\<rparr>)
           (map Some fieldnames))"
  then have i: "i < length fieldnames" by simp
  with assms have "map_of (zip fieldnames (map Some r)) (fieldnames ! i) = Some (map Some r ! i)"
    by (intro map_of_zip_nth) simp_all
  with i assms show "map (cell_of \<lparr>named = zip fieldnames (map Some r), restkey = None\<rparr>)
           (map Some fieldnames) ! i = map Text r ! i"
    by (simp add: cell_of_def)
qed

lemma dict_to_list_regular:
  assumes "distinct fieldnames" and "length r = length fieldnames"
  shows "dict_to_list (map Some fieldnames) (dictreader_next fieldnames r) = Inr (map Text r)"
  using assms cells_regular [OF assms]
  by (simp add: dict_to_list_def dictreader_next_regular row_keys_regular)

lemma header_cells: "map header_cell (map Some fieldnames) = map Text fieldnames"
  by (simp add: header_cell_def)

lemma dictreader_next_all_names:
  "fst ` set (named (dictreader_next fieldnames r)) = set fieldnames"
proof -
  have zip: "fst ` set (zip fieldnames (map Some r)) = set (take (length r) fieldnames)"
  proof -
    have "map fst (zip fieldnames (map Some r)) = take (length r) fieldnames"
      by (simp add: map_fst_zip_take min_def)
    then have "set (map fst (zip fieldnames (map Some r))) = set (take (length r) fieldnames)"
      by simp
    then show ?thesis by simp
  qed
  have "set (take (length r) fieldnames) \<union> set (drop (length r) fieldnames) = set fieldnames"
    by (metis append_take_drop_id set_append)
  with zip show ?thesis
    by (auto simp: dictreader_next_def Let_def dict_of_keys foldl_restval_keys)
qed

lemma row_keys_names: "Some ` set fieldnames \<subseteq> set (row_keys (dictreader_next fieldnames r))"
  using dictreader_next_all_names [of fieldnames r]
  by (auto simp: row_keys_def image_iff)

lemma row_keys_no_surplus:
  "length r \<le> length fieldnames \<Longrightarrow>
   set (row_keys (dictreader_next fieldnames r)) = Some ` set fieldnames"
proof -
  assume "length r \<le> length fieldnames"
  then have "restkey (dictreader_next fieldnames r) = None"
    by (simp add: dictreader_next_def Let_def)
  moreover have "(\<lambda>p. Some (fst p)) ` set (named (dictreader_next fieldnames r)) =
      Some ` (fst ` set (named (dictreader_next fieldnames r)))"
    by (simp add: image_image)
  ultimately show ?thesis
    by (simp add: row_keys_def dictreader_next_all_names)
qed

lemma dict_to_list_no_surplus:
  assumes "length r \<le> length header"
  shows "dict_to_list (row_keys (dictreader_next header r0)) (dictreader_next header r) =
     Inr (map (cell_of (dictreader_next header r)) (row_keys (dictreader_next header r0)))"
  using row_keys_no_surplus [OF assms] row_keys_names [of header r0]
  by (auto simp: dict_to_list_def Let_def filter_empty_conv)

subsection \<open>One row of the loop\<close>

lemma dict_to_list_Inr:
  "dict_to_list fieldnames r = Inr cells \<Longrightarrow> cells = map (cell_of r) fieldnames"
  by (auto simp: dict_to_list_def Let_def split: if_splits)

lemma replay_row_result:
  fixes pyfloat fieldnames s prev_t r w
  defines "d \<equiv> compute_sleep_s prev_t (safe_float pyfloat (row_get r ''time'')) s"
  shows "replay_row pyfloat fieldnames s prev_t r w =
     (if 0 < d \<and> sleep_max w < d then (Some Overflow_error, prev_t, w)
      else case dict_to_list fieldnames r of
             Inl e \<Rightarrow> (Some e, prev_t, w\<lparr>trace := trace w @ (if 0 < d then [Sleep d] else [])\<rparr>)
           | Inr cells \<Rightarrow>
               (None, safe_float pyfloat (row_get r ''time''),
                w\<lparr>output_file := map_option (\<lambda>rs. rs @ pending w @ [cells]) (output_file w),
                  pending := [],
                  trace := trace w @ (if 0 < d then [Sleep d] else []) @ [Write cells, Flush, Fsync]\<rparr>))"
  by (simp add: replay_row_def writerow_def sleep_def Let_def d_def effect_defs split: sum.splits)

lemma replay_row_cases:
  fixes pyfloat fieldnames s prev_t r and w :: world
  defines "d \<equiv> compute_sleep_s prev_t (safe_float pyfloat (row_get r ''time'')) s"
  obtains (overflow) "0 < d" and "sleep_max w < d"
      and "replay_row pyfloat fieldnames s prev_t r w = (Some Overflow_error, prev_t, w)"
  | (raised) e where "dict_to_list fieldnames r = Inl e"
      and "replay_row pyfloat fieldnames s prev_t r w =
             (Some e, prev_t, w\<lparr>trace := trace w @ (if 0 < d then [Sleep d] else [])\<rparr>)"
  | (written) "dict_to_list fieldnames r = Inr (map (cell_of r) fieldnames)"
      and "\<not> (0 < d \<and> sleep_max w < d)"
      and "replay_row pyfloat fieldnames s prev_t r w =
             (None, safe_float pyfloat (row_get r ''time''),
              w\<lparr>output_file :=
                   map_option (\<lambda>rs. rs @ pending w @ [map (cell_of r) fieldnames]) (output_file w),
                pending := [],
                trace := trace w @ (if 0 < d then [Sleep d] else []) @
                  [Write (map (cell_of r) fieldnames), Flush, Fsync]\<rparr>)"
proof (cases "0 < d \<and> sleep_max w < d")
  case True
  then have "replay_row pyfloat fieldnames s prev_t r w = (Some Overflow_error, prev_t, w)"
    using replay_row_result [of pyfloat fieldnames s prev_t r w] by (simp add: d_def)
  with True overflow show ?thesis by blast
next
  case False
  then have noflow: "(0 < d \<and> sleep_max w < d) = False" by simp
  show ?thesis
  proof (cases "dict_to_list fieldnames r")
    case (Inl e)
    have "replay_row pyfloat fieldnames s prev_t r w =
             (Some e, prev_t, w\<lparr>trace := trace w @ (if 0 < d then [Sleep d] else [])\<rparr>)"
      unfolding replay_row_result [of pyfloat fieldnames s prev_t r w] d_def [symmetric] noflow Inl
      by simp
    with Inl raised show ?thesis by blast
  next
    case (Inr cells)
    then have cells: "cells = map (cell_of r) fieldnames" by (rule dict_to_list_Inr)
    have "replay_row pyfloat fieldnames s prev_t r w =
             (None, safe_float pyfloat (row_get r ''time''),
              w\<lparr>output_file :=
                   map_option (\<lambda>rs. rs @ pending w @ [map (cell_of r) fieldnames]) (output_file w),
                pending := [],
                trace := trace w @ (if 0 < d then [Sleep d] else []) @
                  [Write (map (cell_of r) fieldnames), Flush, Fsync]\<rparr>)"
      unfolding replay_row_result [of pyfloat fieldnames s prev_t r w] d_def [symmetric] noflow Inr cells
      by simp
    with Inr cells False written show ?thesis by blast
  qed
qed

subsection \<open>The whole loop\<close>

lemma replay_rows_result:
  assumes "pending w = []"
  shows "\<exists>k evs. k \<le> length rows
     \<and> (fst (replay_rows pyfloat fieldnames s prev_t rows w) = None \<longrightarrow> k = length rows)
     \<and> output_file (snd (replay_rows pyfloat fieldnames s prev_t rows w)) =
         map_option (\<lambda>rs. rs @ map (\<lambda>r. map (cell_of r) fieldnames) (take k rows)) (output_file w)
     \<and> pending (snd (replay_rows pyfloat fieldnames s prev_t rows w)) = []
     \<and> input_file (snd (replay_rows pyfloat fieldnames s prev_t rows w)) = input_file w
     \<and> sleep_max (snd (replay_rows pyfloat fieldnames s prev_t rows w)) = sleep_max w
     \<and> trace (snd (replay_rows pyfloat fieldnames s prev_t rows w)) = trace w @ evs
     \<and> (\<forall>d. Sleep d \<in> set evs \<longrightarrow> 0 < d)"
  using assms
proof (induction rows arbitrary: prev_t w)
  case Nil
  show ?case
    apply (rule exI [of _ 0])
    apply (rule exI [of _ "[]"])
    using Nil apply (simp add: option.map_ident)
    done
next
  case (Cons r rows)
  let ?d = "compute_sleep_s prev_t (safe_float pyfloat (row_get r ''time'')) s"
  let ?pre = "if 0 < ?d then [Sleep ?d] else []"
  let ?cells = "map (cell_of r) fieldnames"
  show ?case
  proof (cases rule: replay_row_cases [of prev_t pyfloat r s w fieldnames])
    case overflow
    show ?thesis
      apply (rule exI [of _ 0])
      apply (rule exI [of _ "[]"])
      using overflow(3) Cons.prems apply (simp add: option.map_ident)
      done
  next
    case (raised e)
    show ?thesis
      apply (rule exI [of _ 0])
      apply (rule exI [of _ ?pre])
      using raised(2) Cons.prems apply (simp add: option.map_ident)
      done
  next
    case written
    let ?w' = "w\<lparr>output_file := map_option (\<lambda>rs. rs @ pending w @ [?cells]) (output_file w),
                pending := [],
                trace := trace w @ ?pre @ [Write ?cells, Flush, Fsync]\<rparr>"
    let ?c = "safe_float pyfloat (row_get r ''time'')"
    let ?res = "replay_rows pyfloat fieldnames s ?c rows ?w'"
    have step: "replay_rows pyfloat fieldnames s prev_t (r # rows) w = ?res"
      using written(3) by simp
    have "pending ?w' = []" by simp
    from Cons.IH [OF this, of ?c] obtain k evs where k: "k \<le> length rows"
      and fin: "fst ?res = None \<longrightarrow> k = length rows"
      and out: "output_file (snd ?res) =
         map_option (\<lambda>rs. rs @ map (\<lambda>r. map (cell_of r) fieldnames) (take k rows)) (output_file ?w')"
      and pend: "pending (snd ?res) = []"
      and inp: "input_file (snd ?res) = input_file ?w'"
      and lim: "sleep_max (snd ?res) = sleep_max ?w'"
      and tr: "trace (snd ?res) = trace ?w' @ evs"
      and pos: "\<forall>d. Sleep d \<in> set evs \<longrightarrow> 0 < d"
      by (elim exE conjE) (rule that, assumption+)
    show ?thesis
      unfolding step
      apply (rule exI [of _ "Suc k"])
      apply (rule exI [of _ "?pre @ [Write ?cells, Flush, Fsync] @ evs"])
      using k fin out pend inp lim tr pos Cons.prems
      apply (simp add: option.map_comp comp_def)
      done
  qed
qed

lemma replay_rows_same_outcome:
  assumes "output_file w1 = output_file w2" and "pending w1 = pending w2"
    and "sleep_max w1 = sleep_max w2"
  shows "fst (replay_rows pyfloat fieldnames s prev_t rows w1)
           = fst (replay_rows pyfloat fieldnames s prev_t rows w2)
     \<and> output_file (snd (replay_rows pyfloat fieldnames s prev_t rows w1))
           = output_file (snd (replay_rows pyfloat fieldnames s prev_t rows w2))
     \<and> pending (snd (replay_rows pyfloat fieldnames s prev_t rows w1))
           = pending (snd (replay_rows pyfloat fieldnames s prev_t rows w2))"
  using assms
proof (induction rows arbitrary: prev_t w1 w2)
  case Nil
  then show ?case by simp
next
  case (Cons r rows)
  let ?d = "compute_sleep_s prev_t (safe_float pyfloat (row_get r ''time'')) s"
  let ?c = "safe_float pyfloat (row_get r ''time'')"
  let ?cells = "map (cell_of r) fieldnames"
  show ?case
  proof (cases rule: replay_row_cases [of prev_t pyfloat r s w1 fieldnames])
    case overflow
    from overflow(1,2) Cons.prems(3) have "0 < ?d \<and> sleep_max w2 < ?d" by simp
    then have "replay_row pyfloat fieldnames s prev_t r w2 = (Some Overflow_error, prev_t, w2)"
      using replay_row_result [of pyfloat fieldnames s prev_t r w2] by simp
    with overflow(3) Cons.prems show ?thesis by simp
  next
    case (raised e)
    show ?thesis
    proof (cases rule: replay_row_cases [of prev_t pyfloat r s w2 fieldnames])
      case overflow
      from overflow(1,2) Cons.prems(3) have "0 < ?d \<and> sleep_max w1 < ?d" by simp
      then have "replay_row pyfloat fieldnames s prev_t r w1 = (Some Overflow_error, prev_t, w1)"
        using replay_row_result [of pyfloat fieldnames s prev_t r w1] by simp
      with overflow(3) Cons.prems show ?thesis by simp
    next
      case (raised e')
      with \<open>dict_to_list fieldnames r = Inl e\<close>
        \<open>replay_row pyfloat fieldnames s prev_t r w1 =
             (Some e, prev_t, w1\<lparr>trace := trace w1 @ (if 0 < ?d then [Sleep ?d] else [])\<rparr>)\<close>
        Cons.prems
      show ?thesis by simp
    next
      case written
      with \<open>dict_to_list fieldnames r = Inl e\<close> show ?thesis by simp
    qed
  next
    case written
    let ?v1 = "w1\<lparr>output_file := map_option (\<lambda>rs. rs @ pending w1 @ [?cells]) (output_file w1),
                  pending := [],
                  trace := trace w1 @ (if 0 < ?d then [Sleep ?d] else []) @ [Write ?cells, Flush, Fsync]\<rparr>"
    let ?v2 = "w2\<lparr>output_file := map_option (\<lambda>rs. rs @ pending w2 @ [?cells]) (output_file w2),
                  pending := [],
                  trace := trace w2 @ (if 0 < ?d then [Sleep ?d] else []) @ [Write ?cells, Flush, Fsync]\<rparr>"
    from written(2) Cons.prems(3) have "(0 < ?d \<and> sleep_max w2 < ?d) = False" by simp
    then have r2: "replay_row pyfloat fieldnames s prev_t r w2 = (None, ?c, ?v2)"
      unfolding replay_row_result [of pyfloat fieldnames s prev_t r w2] written(1) by simp
    have "output_file ?v1 = output_file ?v2" "pending ?v1 = pending ?v2"
      "sleep_max ?v1 = sleep_max ?v2"
      using Cons.prems by simp_all
    from Cons.IH [OF this, of ?c] written(3) r2 show ?thesis
      by simp
  qed
qed

subsection \<open>The program\<close>

lemma read_all_rows_nonempty: "read_all_rows node \<noteq> Inr []"
  by (auto simp: read_all_rows_def Let_def split: input_node.splits list.splits)

lemma read_all_rows_valid:
  assumes "valid_dataset header (filter (\<lambda>r. r \<noteq> []) recs)"
  shows "read_all_rows (Records (header # recs)) =
     Inr (map (dictreader_next header) (filter (\<lambda>r. r \<noteq> []) recs))"
proof -
  from assms have "header \<noteq> []" and "filter (\<lambda>r. r \<noteq> []) recs \<noteq> []"
    by (auto simp: valid_dataset_def)
  then show ?thesis
    by (simp add: read_all_rows_def dictreader_rows_def Let_def)
qed

lemma main_loaded:
  assumes "0 < speed a" and "read_all_rows (input_file w) = Inr (row0 # rows)"
    and "Some ''time'' \<in> set (row_keys row0)"
  shows "main pyfloat a w =
     (case replay_rows pyfloat (row_keys row0) (speed a) None (row0 # rows)
             (emit (Stdout (Starting (input_path a) (output_path a) (speed a)))
               (fsync (flush (writeheader (row_keys row0)
                 (open_w (output_path a) (ensure_parent_dir (output_path a) w)))))) of
        (Some e, w5) \<Rightarrow> (Uncaught e, close w5)
      | (None, w5) \<Rightarrow> (Exit 0, close (emit (Stdout Reached_end) w5)))"
proof -
  from assms(2) have "input_file w \<noteq> Missing"
    by (auto simp: read_all_rows_def)
  moreover have "input_file (ensure_parent_dir (output_path a) w) = input_file w"
    by (simp add: effect_defs)
  ultimately show ?thesis
    using assms by (simp add: main_def Let_def)
qed

lemma header_stage:
  fixes a w fieldnames
  defines "w4 \<equiv> emit (Stdout (Starting (input_path a) (output_path a) (speed a)))
               (fsync (flush (writeheader fieldnames
                 (open_w (output_path a) (ensure_parent_dir (output_path a) w)))))"
  shows "output_file w4 = Some [map header_cell fieldnames]"
    and "pending w4 = []"
    and "input_file w4 = input_file w"
    and "sleep_max w4 = sleep_max w"
    and "trace w4 = trace w @ [Mkdir_parents (output_path a), Open_w (output_path a),
           Write (map header_cell fieldnames), Flush, Fsync,
           Stdout (Starting (input_path a) (output_path a) (speed a))]"
  by (simp_all add: w4_def effect_defs)

lemma main_rejected:
  assumes "speed a \<le> 0 \<or> (\<forall>row0 rows. read_all_rows (input_file w) = Inr (row0 # rows) \<longrightarrow>
             Some ''time'' \<notin> set (row_keys row0))"
  shows "\<exists>evs. main pyfloat a w = (Exit 2, w\<lparr>trace := trace w @ evs\<rparr>) \<and> (\<forall>d. Sleep d \<notin> set evs)"
proof (cases "speed a \<le> 0")
  case True
  then have "main pyfloat a w = (Exit 2, w\<lparr>trace := trace w @ [Stderr ''ERROR: --speed must be > 0.'']\<rparr>)"
    by (simp add: main_def emit_def)
  then show ?thesis by auto
next
  case False
  with assms have notime: "\<forall>row0 rows. read_all_rows (input_file w) = Inr (row0 # rows) \<longrightarrow>
             Some ''time'' \<notin> set (row_keys row0)"
    by simp
  show ?thesis
  proof (cases "input_file w = Missing")
    case True
    with False have "main pyfloat a w =
        (Exit 2, w\<lparr>trace := trace w @ [Stderr (''ERROR: input file not found: '' @ input_path a)]\<rparr>)"
      by (simp add: main_def emit_def)
    then show ?thesis by auto
  next
    case present: False
    show ?thesis
    proof (cases "read_all_rows (input_file w)")
      case (Inl e)
      with False present have "main pyfloat a w =
        (Exit 2, w\<lparr>trace := trace w @ [Mkdir_parents (output_path a),
           Stderr (''ERROR: failed reading input CSV: '' @ e)]\<rparr>)"
        by (simp add: main_def effect_defs)
      then show ?thesis by auto
    next
      case (Inr rows)
      with read_all_rows_nonempty [of "input_file w"] obtain row0 rows' where rows: "rows = row0 # rows'"
        by (cases rows) auto
      with Inr notime have "Some ''time'' \<notin> set (row_keys row0)" by simp
      with False present Inr rows have "main pyfloat a w =
        (Exit 2, w\<lparr>trace := trace w @ [Mkdir_parents (output_path a),
           Stderr ''ERROR: expected a 'time' column in the input CSV.'']\<rparr>)"
        by (simp add: main_def effect_defs)
      then show ?thesis by auto
    qed
  qed
qed

lemma main_cases:
  obtains (rejected) evs where "main pyfloat a w = (Exit 2, w\<lparr>trace := trace w @ evs\<rparr>)"
      and "\<forall>d. Sleep d \<notin> set evs"
  | (loaded) row0 rows where "0 < speed a" and "read_all_rows (input_file w) = Inr (row0 # rows)"
      and "Some ''time'' \<in> set (row_keys row0)"
proof (cases "speed a \<le> 0 \<or> (\<forall>row0 rows. read_all_rows (input_file w) = Inr (row0 # rows) \<longrightarrow>
             Some ''time'' \<notin> set (row_keys row0))")
  case True
  from main_rejected [OF this, of pyfloat] rejected show ?thesis by blast
next
  case False
  with loaded show ?thesis by force
qed

lemma main_loaded_result:
  assumes "0 < speed a" and "read_all_rows (input_file w) = Inr (row0 # rest)"
    and "Some ''time'' \<in> set (row_keys row0)"
  shows "\<exists>k evs. k \<le> length (row0 # rest)
     \<and> (fst (main pyfloat a w) = Exit 0 \<longrightarrow> k = length (row0 # rest))
     \<and> fst (main pyfloat a w) \<noteq> Exit 2
     \<and> output_file (snd (main pyfloat a w)) =
         Some (map header_cell (row_keys row0) #
               map (\<lambda>r. map (cell_of r) (row_keys row0)) (take k (row0 # rest)))
     \<and> pending (snd (main pyfloat a w)) = []
     \<and> input_file (snd (main pyfloat a w)) = input_file w
     \<and> sleep_max (snd (main pyfloat a w)) = sleep_max w
     \<and> trace (snd (main pyfloat a w)) =
         trace w @ [Mkdir_parents (output_path a), Open_w (output_path a),
           Write (map header_cell (row_keys row0)), Flush, Fsync] @ evs
     \<and> (\<forall>d. Sleep d \<in> set evs \<longrightarrow> 0 < d)"
proof -
  let ?fns = "row_keys row0"
  let ?w4 = "emit (Stdout (Starting (input_path a) (output_path a) (speed a)))
               (fsync (flush (writeheader ?fns
                 (open_w (output_path a) (ensure_parent_dir (output_path a) w)))))"
  let ?res = "replay_rows pyfloat ?fns (speed a) None (row0 # rest) ?w4"
  let ?banner = "Stdout (Starting (input_path a) (output_path a) (speed a))"
  note w4 = header_stage [of a ?fns w]
  from replay_rows_result [OF w4(2), of "row0 # rest" pyfloat ?fns "speed a" None]
  obtain k evs where k: "k \<le> length (row0 # rest)"
    and fin: "fst ?res = None \<longrightarrow> k = length (row0 # rest)"
    and out: "output_file (snd ?res) =
       map_option (\<lambda>rs. rs @ map (\<lambda>r. map (cell_of r) ?fns) (take k (row0 # rest))) (output_file ?w4)"
    and pend: "pending (snd ?res) = []"
    and inp: "input_file (snd ?res) = input_file ?w4"
    and lim: "sleep_max (snd ?res) = sleep_max ?w4"
    and tr: "trace (snd ?res) = trace ?w4 @ evs"
    and pos: "\<forall>d. Sleep d \<in> set evs \<longrightarrow> 0 < d"
    by (elim exE conjE) (rule that, assumption+)
  obtain e w5 where res: "?res = (e, w5)" by (cases ?res)
  have main: "main pyfloat a w =
     (case ?res of
        (Some e, w5) \<Rightarrow> (Uncaught e, close w5)
      | (None, w5) \<Rightarrow> (Exit 0, close (emit (Stdout Reached_end) w5)))"
    by (rule main_loaded [OF assms])
  show ?thesis
  proof (cases e)
    case None
    show ?thesis
      apply (rule exI [of _ k])
      apply (rule exI [of _ "?banner # evs @ [Stdout Reached_end, Close]"])
      unfolding main res None
      using k fin out pend inp lim tr pos w4 res None
      apply (simp add: effect_defs)
      done
  next
    case (Some x)
    show ?thesis
      apply (rule exI [of _ k])
      apply (rule exI [of _ "?banner # evs @ [Close]"])
      unfolding main res Some
      using k out pend inp lim tr pos w4 res Some
      apply (simp add: effect_defs)
      done
  qed
qed

lemma main_input_file: "input_file (snd (main pyfloat a w)) = input_file w"
proof (cases rule: main_cases [of pyfloat a w])
  case (rejected evs)
  then show ?thesis by simp
next
  case (loaded row0 rows)
  from main_loaded_result [OF this, of pyfloat] show ?thesis by blast
qed

lemma main_sleep_max: "sleep_max (snd (main pyfloat a w)) = sleep_max w"
proof (cases rule: main_cases [of pyfloat a w])
  case (rejected evs)
  then show ?thesis by simp
next
  case (loaded row0 rows)
  from main_loaded_result [OF this, of pyfloat] show ?thesis by blast
qed

lemma main_trace:
  "\<exists>evs. trace (snd (main pyfloat a w)) = trace w @ evs \<and> (\<forall>d. Sleep d \<in> set evs \<longrightarrow> 0 < d)"
proof (cases rule: main_cases [of pyfloat a w])
  case (rejected evs)
  then show ?thesis by auto
next
  case (loaded row0 rows)
  from main_loaded_result [OF this, of pyfloat]
  obtain evs where tr: "trace (snd (main pyfloat a w)) =
         trace w @ [Mkdir_parents (output_path a), Open_w (output_path a),
           Write (map header_cell (row_keys row0)), Flush, Fsync] @ evs"
    and pos: "\<forall>d. Sleep d \<in> set evs \<longrightarrow> 0 < d"
    by blast
  show ?thesis
    apply (rule exI [of _ "[Mkdir_parents (output_path a), Open_w (output_path a),
           Write (map header_cell (row_keys row0)), Flush, Fsync] @ evs"])
    using tr pos apply simp
    done
qed

lemma main_not_rejected:
  assumes "fst (main pyfloat a w) \<noteq> Exit 2"
  obtains row0 rest where "0 < speed a" and "read_all_rows (input_file w) = Inr (row0 # rest)"
    and "Some ''time'' \<in> set (row_keys row0)"
proof (cases rule: main_cases [of pyfloat a w])
  case (rejected evs)
  with assms show ?thesis by simp
next
  case (loaded row0 rows)
  with that show ?thesis by blast
qed

lemma main_same_outcome:
  assumes "input_file w1 = input_file w2" and "sleep_max w1 = sleep_max w2"
    and "fst (main pyfloat a w1) \<noteq> Exit 2"
  shows "fst (main pyfloat a w2) = fst (main pyfloat a w1)
     \<and> output_file (snd (main pyfloat a w2)) = output_file (snd (main pyfloat a w1))
     \<and> pending (snd (main pyfloat a w2)) = pending (snd (main pyfloat a w1))"
proof -
  from assms(3) obtain row0 rest where l1: "0 < speed a"
    "read_all_rows (input_file w1) = Inr (row0 # rest)" "Some ''time'' \<in> set (row_keys row0)"
    by (rule main_not_rejected)
  from l1 assms(1) have l2: "read_all_rows (input_file w2) = Inr (row0 # rest)" by simp
  let ?fns = "row_keys row0"
  let ?v1 = "emit (Stdout (Starting (input_path a) (output_path a) (speed a)))
               (fsync (flush (writeheader ?fns
                 (open_w (output_path a) (ensure_parent_dir (output_path a) w1)))))"
  let ?v2 = "emit (Stdout (Starting (input_path a) (output_path a) (speed a)))
               (fsync (flush (writeheader ?fns
                 (open_w (output_path a) (ensure_parent_dir (output_path a) w2)))))"
  let ?r1 = "replay_rows pyfloat ?fns (speed a) None (row0 # rest) ?v1"
  let ?r2 = "replay_rows pyfloat ?fns (speed a) None (row0 # rest) ?v2"
  have "output_file ?v1 = output_file ?v2" and "pending ?v1 = pending ?v2"
    and "sleep_max ?v1 = sleep_max ?v2"
    using assms(2) by (simp_all only: header_stage)
  from replay_rows_same_outcome [OF this, of pyfloat ?fns "speed a" None "row0 # rest"]
  have same: "fst ?r1 = fst ?r2" "output_file (snd ?r1) = output_file (snd ?r2)"
    "pending (snd ?r1) = pending (snd ?r2)"
    by simp_all
  have m1: "main pyfloat a w1 = (case ?r1 of
        (Some e, w5) \<Rightarrow> (Uncaught e, close w5)
      | (None, w5) \<Rightarrow> (Exit 0, close (emit (Stdout Reached_end) w5)))"
    by (rule main_loaded [OF l1])
  have m2: "main pyfloat a w2 = (case ?r2 of
        (Some e, w5) \<Rightarrow> (Uncaught e, close w5)
      | (None, w5) \<Rightarrow> (Exit 0, close (emit (Stdout Reached_end) w5)))"
    by (rule main_loaded [OF l1(1) l2 l1(3)])
  obtain e1 v1 where r1: "?r1 = (e1, v1)" by (cases ?r1)
  obtain e2 v2 where r2: "?r2 = (e2, v2)" by (cases ?r2)
  from same r1 r2 have "e1 = e2" "output_file v1 = output_file v2" "pending v1 = pending v2"
    by simp_all
  then show ?thesis
    unfolding m1 m2 r1 r2 by (cases e2) (simp_all add: effect_defs)
qed

lemma valid_rows_cells:
  assumes "distinct header" and "\<forall>x \<in> set data. length x = length header"
  shows "map (\<lambda>r. map (cell_of r) (map Some header)) (map (dictreader_next header) data) =
     map (map Text) data"
proof -
  have "\<forall>x \<in> set data.
      map (cell_of (dictreader_next header x)) (map Some header) = map Text x"
  proof
    fix x
    assume "x \<in> set data"
    with assms(2) have l: "length x = length header" by simp
    from cells_regular [OF assms(1) l]
    show "map (cell_of (dictreader_next header x)) (map Some header) = map Text x"
      by (simp only: dictreader_next_regular [OF assms(1) l])
  qed
  then show ?thesis by simp
qed

lemma main_valid_result:
  assumes input: "input_file w = Records (header # recs)"
    and valid: "valid_dataset header (filter (\<lambda>r. r \<noteq> []) recs)"
    and speed: "0 < speed a"
  shows "\<exists>k evs. k \<le> length (filter (\<lambda>r. r \<noteq> []) recs)
     \<and> (fst (main pyfloat a w) = Exit 0 \<longrightarrow> k = length (filter (\<lambda>r. r \<noteq> []) recs))
     \<and> output_file (snd (main pyfloat a w)) =
         Some (map Text header # map (map Text) (take k (filter (\<lambda>r. r \<noteq> []) recs)))
     \<and> pending (snd (main pyfloat a w)) = []
     \<and> trace (snd (main pyfloat a w)) =
         trace w @ [Mkdir_parents (output_path a), Open_w (output_path a),
           Write (map Text header), Flush, Fsync] @ evs
     \<and> (\<forall>d. Sleep d \<in> set evs \<longrightarrow> 0 < d)"
proof -
  let ?data = "filter (\<lambda>r. r \<noteq> []) recs"
  from valid have dist: "distinct header" and time: "''time'' \<in> set header"
    and len: "\<forall>r \<in> set ?data. length r = length header"
    by (simp_all add: valid_dataset_def)
  from valid obtain r0 data' where data: "?data = r0 # data'"
    by (auto simp: valid_dataset_def neq_Nil_conv)
  from len data have len0: "length r0 = length header" by simp
  have keys0: "row_keys (dictreader_next header r0) = map Some header"
    using dist len0 by (simp add: dictreader_next_regular row_keys_regular)
  have read: "read_all_rows (input_file w) =
      Inr (dictreader_next header r0 # map (dictreader_next header) data')"
    using read_all_rows_valid [OF valid] input data by simp
  have hastime: "Some ''time'' \<in> set (row_keys (dictreader_next header r0))"
    using time keys0 by simp
  have rows: "dictreader_next header r0 # map (dictreader_next header) data' =
      map (dictreader_next header) ?data"
    using data by simp
  from main_loaded_result [OF speed read hastime, of pyfloat]
  obtain k evs where k: "k \<le> length (dictreader_next header r0 # map (dictreader_next header) data')"
    and fin: "fst (main pyfloat a w) = Exit 0 \<longrightarrow>
       k = length (dictreader_next header r0 # map (dictreader_next header) data')"
    and out: "output_file (snd (main pyfloat a w)) =
         Some (map header_cell (row_keys (dictreader_next header r0)) #
               map (\<lambda>r. map (cell_of r) (row_keys (dictreader_next header r0)))
                 (take k (dictreader_next header r0 # map (dictreader_next header) data')))"
    and pend: "pending (snd (main pyfloat a w)) = []"
    and tr: "trace (snd (main pyfloat a w)) =
         trace w @ [Mkdir_parents (output_path a), Open_w (output_path a),
           Write (map header_cell (row_keys (dictreader_next header r0))), Flush, Fsync] @ evs"
    and pos: "\<forall>d. Sleep d \<in> set evs \<longrightarrow> 0 < d"
    by (elim exE conjE) (rule that, assumption+)
  have len_take: "\<forall>x \<in> set (take k ?data). length x = length header"
    using len by (auto dest: in_set_takeD)
  have cells: "map (\<lambda>r. map (cell_of r) (map Some header))
        (take k (map (dictreader_next header) ?data)) = map (map Text) (take k ?data)"
    using valid_rows_cells [OF dist len_take] by (simp add: take_map)
  show ?thesis
    apply (rule exI [of _ k])
    apply (rule exI [of _ evs])
    using k fin out pend tr pos cells
    unfolding keys0 rows header_cells
    apply simp
    done
qed

lemma replay_rows_no_sleep:
  assumes "compute_sleep_s prev_t (safe_float pyfloat (row_get r ''time'')) s = 0"
    and "dict_to_list fieldnames r = Inr cells"
  shows "replay_rows pyfloat fieldnames s prev_t (r # rows) w =
     replay_rows pyfloat fieldnames s (safe_float pyfloat (row_get r ''time'')) rows
       (w\<lparr>output_file := map_option (\<lambda>rs. rs @ pending w @ [cells]) (output_file w),
          pending := [],
          trace := trace w @ [Write cells, Flush, Fsync]\<rparr>)"
  using assms by (simp add: replay_row_result)

subsection \<open>Two concrete runs\<close>

text \<open>
  One input, two rows ten seconds apart, with the bound of CPython. At speed 1 the replay
  sleeps ten seconds and completes. At speed \<^verbatim>\<open>1e-9\<close> the delay is \<^verbatim>\<open>1e10\<close> seconds, above
  the bound: \<^verbatim>\<open>time.sleep\<close> raises, and the run ends with the header and the first row
  written.
\<close>

lemmas run_defs =
  main_def read_all_rows_def dictreader_rows_def dictreader_next_def dict_of_def row_keys_def
  row_get_def safe_float_def strip_def is_space_def float_of_digits_def is_digit_def
  compute_sleep_s_def replay_row_def writerow_def dict_to_list_def cell_of_def header_cell_def
  sleep_def effect_defs Let_def

lemma slow_replay_overflows:
  "main float_of_digits \<lparr>input_path = ''in.csv'', output_path = ''out.csv'', speed = 1 / 10 ^ 9\<rparr>
     \<lparr>input_file = Records [[''time''], [''0''], [''10'']], output_file = None, pending = [],
      trace = [], sleep_max = 9223372036\<rparr>
   = (Uncaught Overflow_error,
      \<lparr>input_file = Records [[''time''], [''0''], [''10'']],
       output_file = Some [[Text ''time''], [Text ''0'']], pending = [],
       trace = [Mkdir_parents ''out.csv'', Open_w ''out.csv'', Write [Text ''time''], Flush, Fsync,
                Stdout (Starting ''in.csv'' ''out.csv'' (1 / 10 ^ 9)),
                Write [Text ''0''], Flush, Fsync, Close],
       sleep_max = 9223372036\<rparr>)"
  by (simp add: run_defs)

lemma real_time_replay_completes:
  "main float_of_digits \<lparr>input_path = ''in.csv'', output_path = ''out.csv'', speed = 1\<rparr>
     \<lparr>input_file = Records [[''time''], [''0''], [''10'']], output_file = None, pending = [],
      trace = [], sleep_max = 9223372036\<rparr>
   = (Exit 0,
      \<lparr>input_file = Records [[''time''], [''0''], [''10'']],
       output_file = Some [[Text ''time''], [Text ''0''], [Text ''10'']], pending = [],
       trace = [Mkdir_parents ''out.csv'', Open_w ''out.csv'', Write [Text ''time''], Flush, Fsync,
                Stdout (Starting ''in.csv'' ''out.csv'' 1),
                Write [Text ''0''], Flush, Fsync, Sleep 10, Write [Text ''10''], Flush, Fsync,
                Stdout Reached_end, Close],
       sleep_max = 9223372036\<rparr>)"
  by (simp add: run_defs)

section \<open>The pacing delay\<close>

text \<open>
  Claim C1, as amended. With both pacing values present the delay is
  \<open>max 0 (current - previous)\<close> divided by \<open>max (1 / 10 ^ 9) speed\<close>: the speed is clamped
  from below at \<^verbatim>\<open>1e-9\<close>. So the delay is \<open>max 0 (current - previous) / speed\<close> for every
  speed of at least \<^verbatim>\<open>1e-9\<close>. With either pacing value absent the delay is exactly 0,
  at every speed.
\<close>

theorem compute_sleep_s_clamped_speed:
  "compute_sleep_s (Some p) (Some c) s = max 0 (c - p) / max (1 / 10 ^ 9) s
   \<and> (1 / 10 ^ 9 \<le> s \<longrightarrow> compute_sleep_s (Some p) (Some c) s = max 0 (c - p) / s)
   \<and> compute_sleep_s None cu s = 0
   \<and> compute_sleep_s pr None s = 0"
  by (simp add: compute_sleep_s_def Let_def max_def split: option.splits)

theorem compute_sleep_s_clamped_speed_witness:
  "(1::real) / 10 ^ 9 \<le> 2 \<and> compute_sleep_s (Some 0) (Some 3) 2 = 3 / 2"
  using compute_sleep_s_clamped_speed [of 0 3 2] by simp

text \<open>
  Claim C1 as stated fails below the clamp: at the positive speed \<^verbatim>\<open>1e-10\<close>, with
  pacing values 0 and 1, the delay is \<open>10 ^ 9\<close> and not \<open>1 / speed = 10 ^ 10\<close>.
\<close>

theorem compute_sleep_s_tiny_speed_counterexample:
  "(0::real) < 1 / 10 ^ 10
   \<and> compute_sleep_s (Some 0) (Some 1) (1 / 10 ^ 10) = 10 ^ 9
   \<and> max 0 (1 - 0) / (1 / 10 ^ 10) = (10 ^ 10 :: real)
   \<and> compute_sleep_s (Some 0) (Some 1) (1 / 10 ^ 10) \<noteq> max 0 (1 - 0) / (1 / 10 ^ 10)"
  by (simp add: compute_sleep_s_def)

text \<open>
  Claim C8. For present pacing values \<open>t1\<close> and \<open>t2\<close>, the delay at speed 2 is half the
  delay at speed 1.
\<close>

theorem compute_sleep_s_speed_scaling:
  "compute_sleep_s (Some t1) (Some t2) 2 = compute_sleep_s (Some t1) (Some t2) 1 / 2"
  by (simp add: compute_sleep_s_def Let_def max_def)

text \<open>
  Claim C7. For present pacing values \<open>t1\<close> (previous) and \<open>t2\<close> (current) the delay is
  never negative, at any speed, and it is exactly 0 when \<open>t2 < t1\<close>. Every sleep that a
  run requests has a positive duration: \<^verbatim>\<open>time.sleep\<close> is only called when the delay is
  greater than 0.
\<close>

theorem delay_never_negative:
  "0 \<le> compute_sleep_s (Some t1) (Some t2) s
   \<and> (t2 < t1 \<longrightarrow> compute_sleep_s (Some t1) (Some t2) s = 0)
   \<and> (\<exists>evs. trace (snd (main pyfloat a w)) = trace w @ evs \<and> (\<forall>d. Sleep d \<in> set evs \<longrightarrow> 0 < d))"
proof -
  have "0 \<le> compute_sleep_s (Some t1) (Some t2) s"
    by (simp add: compute_sleep_s_def Let_def max_def)
  moreover have "t2 < t1 \<longrightarrow> compute_sleep_s (Some t1) (Some t2) s = 0"
    by (simp add: compute_sleep_s_def Let_def max_def)
  ultimately show ?thesis
    using main_trace [of pyfloat a w] by blast
qed

theorem delay_never_negative_witness:
  "(2::real) < 5
   \<and> compute_sleep_s (Some 5) (Some 2) 1 = 0
   \<and> (\<exists>evs. trace (snd (main float_of_digits
          \<lparr>input_path = ''in.csv'', output_path = ''out.csv'', speed = 1\<rparr>
          \<lparr>input_file = Records [[''time''], [''5''], [''2'']], output_file = None, pending = [],
           trace = [], sleep_max = 9223372036\<rparr>)) = evs \<and> Sleep (- 3) \<notin> set evs)"
  using delay_never_negative [of 5 2 1 float_of_digits
          "\<lparr>input_path = ''in.csv'', output_path = ''out.csv'', speed = 1\<rparr>"
          "\<lparr>input_file = Records [[''time''], [''5''], [''2'']], output_file = None, pending = [],
           trace = [], sleep_max = 9223372036\<rparr>"]
  by auto

section \<open>Absent pacing values\<close>

text \<open>
  Claim C4. Let a row with no surplus value have a \<^verbatim>\<open>time\<close> value that is missing
  (\<^verbatim>\<open>None\<close>), empty after stripping, or refused by \<^verbatim>\<open>float\<close>. Then its pacing value is
  absent, and the delay computed for the row is 0 whatever the previous pacing value is,
  as is the delay of the row after it. The loop raises nothing on this row: its record is
  written, flushed and synced with no sleep before it, so it reaches the output, and the
  loop goes on to the remaining rows with \<^verbatim>\<open>prev_t = None\<close>. The row after it, processed
  with \<^verbatim>\<open>prev_t = None\<close>, is written in the same way with no sleep before it, and the loop
  goes on. The field names are those of a first row \<open>xf\<close>, as \<^verbatim>\<open>main\<close> takes them; with
  unique column names and full rows the record written is the row itself.
\<close>

theorem absent_pacing_value_degrades:
  fixes header x x' xf :: "string list"
  defines "fieldnames \<equiv> row_keys (dictreader_next header xf)"
    and "r \<equiv> dictreader_next header x"
    and "r' \<equiv> dictreader_next header x'"
  assumes "length x \<le> length header" and "length x' \<le> length header"
    and "row_get r ''time'' = v"
    and "v = None \<or> (\<exists>t. v = Some t \<and> (strip t = [] \<or> pyfloat (strip t) = None))"
  shows "safe_float pyfloat v = None
     \<and> compute_sleep_s prev_t (safe_float pyfloat v) s = 0
     \<and> compute_sleep_s (safe_float pyfloat v) curr_t s = 0
     \<and> replay_rows pyfloat fieldnames s prev_t (r # rows) w =
         replay_rows pyfloat fieldnames s None rows
           (w\<lparr>output_file :=
                map_option (\<lambda>rs. rs @ pending w @ [map (cell_of r) fieldnames]) (output_file w),
              pending := [],
              trace := trace w @ [Write (map (cell_of r) fieldnames), Flush, Fsync]\<rparr>)
     \<and> replay_rows pyfloat fieldnames s None (r' # rows') w' =
         replay_rows pyfloat fieldnames s (safe_float pyfloat (row_get r' ''time'')) rows'
           (w'\<lparr>output_file :=
                 map_option (\<lambda>rs. rs @ pending w' @ [map (cell_of r') fieldnames]) (output_file w'),
               pending := [],
               trace := trace w' @ [Write (map (cell_of r') fieldnames), Flush, Fsync]\<rparr>)
     \<and> (distinct header \<and> length x = length header \<and> length xf = length header \<longrightarrow>
          fieldnames = map Some header \<and> map (cell_of r) fieldnames = map Text x)"
proof -
  from assms(7) have none: "safe_float pyfloat v = None"
    by (auto simp: safe_float_def Let_def)
  have d1: "compute_sleep_s prev_t None s = 0"
    by (simp add: compute_sleep_s_def split: option.splits)
  have d2: "\<And>c. compute_sleep_s None c s = 0"
    by (simp add: compute_sleep_s_def)
  have ok: "dict_to_list fieldnames r = Inr (map (cell_of r) fieldnames)"
    unfolding fieldnames_def r_def by (rule dict_to_list_no_surplus [OF assms(4)])
  have ok': "dict_to_list fieldnames r' = Inr (map (cell_of r') fieldnames)"
    unfolding fieldnames_def r'_def by (rule dict_to_list_no_surplus [OF assms(5)])
  have "compute_sleep_s prev_t (safe_float pyfloat (row_get r ''time'')) s = 0"
    using assms(6) none d1 by simp
  from replay_rows_no_sleep [OF this ok, of rows w]
  have this_row: "replay_rows pyfloat fieldnames s prev_t (r # rows) w =
         replay_rows pyfloat fieldnames s None rows
           (w\<lparr>output_file :=
                map_option (\<lambda>rs. rs @ pending w @ [map (cell_of r) fieldnames]) (output_file w),
              pending := [],
              trace := trace w @ [Write (map (cell_of r) fieldnames), Flush, Fsync]\<rparr>)"
    using assms(6) none by simp
  have "compute_sleep_s None (safe_float pyfloat (row_get r' ''time'')) s = 0"
    by (rule d2)
  from replay_rows_no_sleep [OF this ok', of rows' w']
  have next_row: "replay_rows pyfloat fieldnames s None (r' # rows') w' =
         replay_rows pyfloat fieldnames s (safe_float pyfloat (row_get r' ''time'')) rows'
           (w'\<lparr>output_file :=
                 map_option (\<lambda>rs. rs @ pending w' @ [map (cell_of r') fieldnames]) (output_file w'),
               pending := [],
               trace := trace w' @ [Write (map (cell_of r') fieldnames), Flush, Fsync]\<rparr>)" .
  have regular: "distinct header \<and> length x = length header \<and> length xf = length header \<longrightarrow>
          fieldnames = map Some header \<and> map (cell_of r) fieldnames = map Text x"
  proof
    assume a: "distinct header \<and> length x = length header \<and> length xf = length header"
    then have f: "fieldnames = map Some header"
      by (simp add: fieldnames_def dictreader_next_regular row_keys_regular)
    from a have "dict_to_list (map Some header) (dictreader_next header x) = Inr (map Text x)"
      by (simp add: dict_to_list_regular)
    with ok f have "map (cell_of r) fieldnames = map Text x"
      by (simp add: r_def)
    with f show "fieldnames = map Some header \<and> map (cell_of r) fieldnames = map Text x"
      by simp
  qed
  from none d1 have e1: "compute_sleep_s prev_t (safe_float pyfloat v) s = 0" by simp
  from none d2 have e2: "compute_sleep_s (safe_float pyfloat v) curr_t s = 0" by simp
  from none e1 e2 this_row next_row regular show ?thesis
    by (intro conjI) assumption+
qed

theorem absent_pacing_value_degrades_witness:
  "length [''n/a'', ''1''] \<le> length [''time'', ''ch1'']
   \<and> row_get (dictreader_next [''time'', ''ch1''] [''n/a'', ''1'']) ''time'' = Some ''n/a''
   \<and> float_of_digits (strip ''n/a'') = None
   \<and> safe_float float_of_digits (Some ''n/a'') = None
   \<and> compute_sleep_s (Some 7) (safe_float float_of_digits (Some ''n/a'')) 1 = 0
   \<and> compute_sleep_s (safe_float float_of_digits (Some ''n/a'')) (Some 9) 1 = 0
   \<and> replay_rows float_of_digits [Some ''time'', Some ''ch1''] 1 (Some 7)
        [dictreader_next [''time'', ''ch1''] [''n/a'', ''1''],
         dictreader_next [''time'', ''ch1''] [''9'', ''2'']]
        \<lparr>input_file = Missing, output_file = Some [[Text ''time'', Text ''ch1'']], pending = [],
         trace = [], sleep_max = 9223372036\<rparr>
     = (None,
        \<lparr>input_file = Missing,
         output_file = Some [[Text ''time'', Text ''ch1''], [Text ''n/a'', Text ''1''],
                             [Text ''9'', Text ''2'']],
         pending = [],
         trace = [Write [Text ''n/a'', Text ''1''], Flush, Fsync,
                  Write [Text ''9'', Text ''2''], Flush, Fsync],
         sleep_max = 9223372036\<rparr>)"
proof -
  have h1: "length [''n/a'', ''1''] \<le> length [''time'', ''ch1'']" by simp
  have h2: "length [''9'', ''2''] \<le> length [''time'', ''ch1'']" by simp
  have h3: "row_get (dictreader_next [''time'', ''ch1''] [''n/a'', ''1'']) ''time'' = Some ''n/a''"
    by (simp add: row_get_def dictreader_next_def dict_of_def)
  have h4: "float_of_digits (strip ''n/a'') = None"
    by (simp add: strip_def is_space_def float_of_digits_def is_digit_def)
  then have h5: "Some ''n/a'' = None \<or>
      (\<exists>t. Some ''n/a'' = Some t \<and> (strip t = [] \<or> float_of_digits (strip t) = None))"
    by simp
  note t = absent_pacing_value_degrades
    [where header = "[''time'', ''ch1'']" and x = "[''n/a'', ''1'']" and x' = "[''9'', ''2'']"
       and xf = "[''0'', ''1'']" and v = "Some ''n/a''" and pyfloat = float_of_digits
       and prev_t = "Some 7" and s = 1 and curr_t = "Some 9"
       and rows = "[dictreader_next [''time'', ''ch1''] [''9'', ''2'']]"
       and w = "\<lparr>input_file = Missing, output_file = Some [[Text ''time'', Text ''ch1'']],
                 pending = [], trace = [], sleep_max = 9223372036\<rparr>"
       and rows' = "[]"
       and w' = "\<lparr>input_file = Missing,
                  output_file = Some [[Text ''time'', Text ''ch1''], [Text ''n/a'', Text ''1'']],
                  pending = [],
                  trace = [Write [Text ''n/a'', Text ''1''], Flush, Fsync],
                  sleep_max = 9223372036\<rparr>",
     OF h1 h2 h3 h5]
  have keys: "row_keys (dictreader_next [''time'', ''ch1''] [''0'', ''1'']) =
      [Some ''time'', Some ''ch1'']"
    by (simp add: row_keys_def dictreader_next_def dict_of_def)
  have c1: "map (cell_of (dictreader_next [''time'', ''ch1''] [''n/a'', ''1'']))
      [Some ''time'', Some ''ch1''] = [Text ''n/a'', Text ''1'']"
    by (simp add: cell_of_def dictreader_next_def dict_of_def)
  have c2: "map (cell_of (dictreader_next [''time'', ''ch1''] [''9'', ''2'']))
      [Some ''time'', Some ''ch1''] = [Text ''9'', Text ''2'']"
    by (simp add: cell_of_def dictreader_next_def dict_of_def)
  from t have "replay_rows float_of_digits [Some ''time'', Some ''ch1''] 1 (Some 7)
        [dictreader_next [''time'', ''ch1''] [''n/a'', ''1''],
         dictreader_next [''time'', ''ch1''] [''9'', ''2'']]
        \<lparr>input_file = Missing, output_file = Some [[Text ''time'', Text ''ch1'']], pending = [],
         trace = [], sleep_max = 9223372036\<rparr>
     = (None,
        \<lparr>input_file = Missing,
         output_file = Some [[Text ''time'', Text ''ch1''], [Text ''n/a'', Text ''1''],
                             [Text ''9'', Text ''2'']],
         pending = [],
         trace = [Write [Text ''n/a'', Text ''1''], Flush, Fsync,
                  Write [Text ''9'', Text ''2''], Flush, Fsync],
         sleep_max = 9223372036\<rparr>)"
    unfolding keys c1 c2 by (simp del: replay_rows.simps(2))
  moreover from t have "safe_float float_of_digits (Some ''n/a'') = None
     \<and> compute_sleep_s (Some 7) (safe_float float_of_digits (Some ''n/a'')) 1 = 0
     \<and> compute_sleep_s (safe_float float_of_digits (Some ''n/a'')) (Some 9) 1 = 0"
    by (intro conjI) (elim conjE, assumption)+
  ultimately show ?thesis
    using h1 h3 h4 by (intro conjI) (elim conjE, assumption)+
qed

section \<open>Rejected runs\<close>

text \<open>
  Claim C5. With a speed of zero or less the program returns exit code 2 at once: the
  only effect is the diagnostic on the error stream. The node at the output path is
  neither created nor truncated, no directory is made, and no row is read or written.
\<close>

theorem nonpositive_speed_rejected:
  assumes "speed a \<le> 0"
  shows "main pyfloat a w = (Exit 2, w\<lparr>trace := trace w @ [Stderr ''ERROR: --speed must be > 0.'']\<rparr>)
     \<and> output_file (snd (main pyfloat a w)) = output_file w
     \<and> pending (snd (main pyfloat a w)) = pending w"
  using assms by (simp add: main_def emit_def)

theorem nonpositive_speed_rejected_witness:
  "speed \<lparr>input_path = ''in.csv'', output_path = ''out.csv'', speed = 0\<rparr> \<le> 0
   \<and> speed \<lparr>input_path = ''in.csv'', output_path = ''out.csv'', speed = - 1\<rparr> \<le> 0
   \<and> main float_of_digits \<lparr>input_path = ''in.csv'', output_path = ''out.csv'', speed = 0\<rparr>
         \<lparr>input_file = Records [[''time''], [''0'']], output_file = None, pending = [], trace = [], sleep_max = 9223372036\<rparr>
       = (Exit 2, \<lparr>input_file = Records [[''time''], [''0'']], output_file = None, pending = [],
                   trace = [Stderr ''ERROR: --speed must be > 0.''], sleep_max = 9223372036\<rparr>)
   \<and> main float_of_digits \<lparr>input_path = ''in.csv'', output_path = ''out.csv'', speed = - 1\<rparr>
         \<lparr>input_file = Records [[''time''], [''0'']], output_file = Some [[Text ''kept'']],
          pending = [], trace = [], sleep_max = 9223372036\<rparr>
       = (Exit 2, \<lparr>input_file = Records [[''time''], [''0'']], output_file = Some [[Text ''kept'']],
                   pending = [], trace = [Stderr ''ERROR: --speed must be > 0.''], sleep_max = 9223372036\<rparr>)"
  using nonpositive_speed_rejected
    [of "\<lparr>input_path = ''in.csv'', output_path = ''out.csv'', speed = 0\<rparr>" float_of_digits
        "\<lparr>input_file = Records [[''time''], [''0'']], output_file = None, pending = [], trace = [], sleep_max = 9223372036\<rparr>"]
    nonpositive_speed_rejected
    [of "\<lparr>input_path = ''in.csv'', output_path = ''out.csv'', speed = - 1\<rparr>" float_of_digits
        "\<lparr>input_file = Records [[''time''], [''0'']], output_file = Some [[Text ''kept'']],
          pending = [], trace = [], sleep_max = 9223372036\<rparr>"]
  by simp

text \<open>
  Claim C6. Each of the four input failures ends the run with exit code 2 and a
  diagnostic of its own on the error stream: a missing input file; a file with no header
  (no record at all, or a blank first line); a header with no data row after it; a header
  without the column \<^verbatim>\<open>time\<close>. In every case the world changes in its trace only, so the
  node at the output path is never created, truncated or written. (The parent directory
  of the output path is made before the input is read, hence the \<open>Mkdir_parents\<close> event
  in the last three cases. A speed of zero or less is reported first.)
\<close>

theorem bad_input_rejected:
  "(input_file w = Missing \<longrightarrow>
      main pyfloat a w =
        (Exit 2, w\<lparr>trace := trace w @
           (if speed a \<le> 0 then [Stderr ''ERROR: --speed must be > 0.'']
            else [Stderr (''ERROR: input file not found: '' @ input_path a)])\<rparr>))
   \<and> (input_file w = Records recs \<and> (recs = [] \<or> hd recs = []) \<longrightarrow>
      main pyfloat a w =
        (Exit 2, w\<lparr>trace := trace w @
           (if speed a \<le> 0 then [Stderr ''ERROR: --speed must be > 0.'']
            else [Mkdir_parents (output_path a),
                  Stderr ''ERROR: failed reading input CSV: Input CSV has no header.''])\<rparr>))
   \<and> (input_file w = Records (header # rest) \<and> header \<noteq> [] \<and> filter (\<lambda>r. r \<noteq> []) rest = [] \<longrightarrow>
      main pyfloat a w =
        (Exit 2, w\<lparr>trace := trace w @
           (if speed a \<le> 0 then [Stderr ''ERROR: --speed must be > 0.'']
            else [Mkdir_parents (output_path a),
                  Stderr ''ERROR: failed reading input CSV: Input CSV has no data rows.''])\<rparr>))
   \<and> (input_file w = Records (header # rest) \<and> header \<noteq> [] \<and> filter (\<lambda>r. r \<noteq> []) rest \<noteq> []
        \<and> ''time'' \<notin> set header \<longrightarrow>
      main pyfloat a w =
        (Exit 2, w\<lparr>trace := trace w @
           (if speed a \<le> 0 then [Stderr ''ERROR: --speed must be > 0.'']
            else [Mkdir_parents (output_path a),
                  Stderr ''ERROR: expected a 'time' column in the input CSV.''])\<rparr>))"
proof (intro conjI impI)
  assume "input_file w = Missing"
  then show "main pyfloat a w =
        (Exit 2, w\<lparr>trace := trace w @
           (if speed a \<le> 0 then [Stderr ''ERROR: --speed must be > 0.'']
            else [Stderr (''ERROR: input file not found: '' @ input_path a)])\<rparr>)"
    by (simp add: main_def emit_def)
next
  assume "input_file w = Records recs \<and> (recs = [] \<or> hd recs = [])"
  then show "main pyfloat a w =
        (Exit 2, w\<lparr>trace := trace w @
           (if speed a \<le> 0 then [Stderr ''ERROR: --speed must be > 0.'']
            else [Mkdir_parents (output_path a),
                  Stderr ''ERROR: failed reading input CSV: Input CSV has no header.''])\<rparr>)"
    by (cases recs) (auto simp: main_def read_all_rows_def effect_defs Let_def)
next
  assume "input_file w = Records (header # rest) \<and> header \<noteq> [] \<and> filter (\<lambda>r. r \<noteq> []) rest = []"
  then show "main pyfloat a w =
        (Exit 2, w\<lparr>trace := trace w @
           (if speed a \<le> 0 then [Stderr ''ERROR: --speed must be > 0.'']
            else [Mkdir_parents (output_path a),
                  Stderr ''ERROR: failed reading input CSV: Input CSV has no data rows.''])\<rparr>)"
    by (simp add: main_def read_all_rows_def dictreader_rows_def effect_defs Let_def)
next
  assume a: "input_file w = Records (header # rest) \<and> header \<noteq> [] \<and> filter (\<lambda>r. r \<noteq> []) rest \<noteq> []
        \<and> ''time'' \<notin> set header"
  then obtain r0 data' where d: "filter (\<lambda>r. r \<noteq> []) rest = r0 # data'"
    by (auto simp: neq_Nil_conv)
  from a have "Some ''time'' \<notin> set (row_keys (dictreader_next header r0))"
    by (simp add: dictreader_next_no_time)
  with a d show "main pyfloat a w =
        (Exit 2, w\<lparr>trace := trace w @
           (if speed a \<le> 0 then [Stderr ''ERROR: --speed must be > 0.'']
            else [Mkdir_parents (output_path a),
                  Stderr ''ERROR: expected a 'time' column in the input CSV.''])\<rparr>)"
    by (simp add: main_def read_all_rows_def dictreader_rows_def effect_defs Let_def)
qed

theorem bad_input_rejected_witness:
  "main float_of_digits \<lparr>input_path = ''in.csv'', output_path = ''out.csv'', speed = 1\<rparr>
     \<lparr>input_file = Missing, output_file = Some [[Text ''kept'']], pending = [], trace = [], sleep_max = 9223372036\<rparr>
   = (Exit 2, \<lparr>input_file = Missing, output_file = Some [[Text ''kept'']], pending = [],
               trace = [Stderr ''ERROR: input file not found: in.csv''], sleep_max = 9223372036\<rparr>)
   \<and> main float_of_digits \<lparr>input_path = ''in.csv'', output_path = ''out.csv'', speed = 1\<rparr>
     \<lparr>input_file = Records [], output_file = None, pending = [], trace = [], sleep_max = 9223372036\<rparr>
   = (Exit 2, \<lparr>input_file = Records [], output_file = None, pending = [],
               trace = [Mkdir_parents ''out.csv'',
                        Stderr ''ERROR: failed reading input CSV: Input CSV has no header.''], sleep_max = 9223372036\<rparr>)
   \<and> main float_of_digits \<lparr>input_path = ''in.csv'', output_path = ''out.csv'', speed = 1\<rparr>
     \<lparr>input_file = Records [[''time'', ''ch1''], []], output_file = None, pending = [], trace = [], sleep_max = 9223372036\<rparr>
   = (Exit 2, \<lparr>input_file = Records [[''time'', ''ch1''], []], output_file = None, pending = [],
               trace = [Mkdir_parents ''out.csv'',
                        Stderr ''ERROR: failed reading input CSV: Input CSV has no data rows.''], sleep_max = 9223372036\<rparr>)
   \<and> main float_of_digits \<lparr>input_path = ''in.csv'', output_path = ''out.csv'', speed = 1\<rparr>
     \<lparr>input_file = Records [[''t'', ''ch1''], [''0'', ''1'']], output_file = None, pending = [],
      trace = [], sleep_max = 9223372036\<rparr>
   = (Exit 2, \<lparr>input_file = Records [[''t'', ''ch1''], [''0'', ''1'']], output_file = None,
               pending = [],
               trace = [Mkdir_parents ''out.csv'',
                        Stderr ''ERROR: expected a 'time' column in the input CSV.''], sleep_max = 9223372036\<rparr>)"
  using bad_input_rejected
    [of "\<lparr>input_file = Missing, output_file = Some [[Text ''kept'']], pending = [], trace = [], sleep_max = 9223372036\<rparr>"
        float_of_digits "\<lparr>input_path = ''in.csv'', output_path = ''out.csv'', speed = 1\<rparr>"]
    bad_input_rejected
    [of "\<lparr>input_file = Records [], output_file = None, pending = [], trace = [], sleep_max = 9223372036\<rparr>"
        float_of_digits "\<lparr>input_path = ''in.csv'', output_path = ''out.csv'', speed = 1\<rparr>" "[]"]
    bad_input_rejected
    [of "\<lparr>input_file = Records [[''time'', ''ch1''], []], output_file = None, pending = [], trace = [], sleep_max = 9223372036\<rparr>"
        float_of_digits "\<lparr>input_path = ''in.csv'', output_path = ''out.csv'', speed = 1\<rparr>"
        "[[''time'', ''ch1''], []]" "[''time'', ''ch1'']" "[[]]"]
    bad_input_rejected
    [of "\<lparr>input_file = Records [[''t'', ''ch1''], [''0'', ''1'']], output_file = None, pending = [],
      trace = [], sleep_max = 9223372036\<rparr>"
        float_of_digits "\<lparr>input_path = ''in.csv'', output_path = ''out.csv'', speed = 1\<rparr>"
        "[[''t'', ''ch1''], [''0'', ''1'']]" "[''t'', ''ch1'']" "[[''0'', ''1'']]"]
  by simp

section \<open>Completed replays\<close>

text \<open>
  Claim C2. For a valid dataset whose \<open>N\<close> data rows are the non-blank records after the
  header, a replay that completes (exit code 0) leaves the output holding the header
  followed by exactly those \<open>N\<close> rows, each with the input's values in the input's order,
  and nothing unflushed. Each pass of the loop over one of these rows either appends
  exactly that row to the flushed output, or ends in the \<^verbatim>\<open>OverflowError\<close> of
  \<^verbatim>\<open>time.sleep\<close> with the world unchanged.
\<close>

theorem replay_preserves_rows:
  assumes "input_file w = Records (header # recs)"
    and "valid_dataset header (filter (\<lambda>r. r \<noteq> []) recs)"
    and "fst (main pyfloat a w) = Exit 0"
  shows "output_file (snd (main pyfloat a w)) =
         Some (map Text header # map (map Text) (filter (\<lambda>r. r \<noteq> []) recs))
     \<and> pending (snd (main pyfloat a w)) = []
     \<and> (\<forall>x \<in> set (filter (\<lambda>r. r \<noteq> []) recs). \<forall>prev_t v. pending v = [] \<longrightarrow>
          replay_row pyfloat (map Some header) (speed a) prev_t (dictreader_next header x) v =
            (Some Overflow_error, prev_t, v)
          \<or> fst (replay_row pyfloat (map Some header) (speed a) prev_t (dictreader_next header x) v)
               = None
           \<and> output_file (snd (snd (replay_row pyfloat (map Some header) (speed a) prev_t
                (dictreader_next header x) v))) =
               map_option (\<lambda>rs. rs @ [map Text x]) (output_file v)
           \<and> pending (snd (snd (replay_row pyfloat (map Some header) (speed a) prev_t
                (dictreader_next header x) v))) = [])"
proof -
  have speed: "0 < speed a"
  proof (rule ccontr)
    assume "\<not> 0 < speed a"
    then have "fst (main pyfloat a w) = Exit 2" by (simp add: main_def)
    with assms(3) show False by simp
  qed
  from main_valid_result [OF assms(1,2) speed, of pyfloat] assms(3)
  have whole: "output_file (snd (main pyfloat a w)) =
         Some (map Text header # map (map Text) (filter (\<lambda>r. r \<noteq> []) recs))
     \<and> pending (snd (main pyfloat a w)) = []"
    by auto
  have step: "replay_row pyfloat (map Some header) (speed a) prev_t (dictreader_next header x) v =
            (Some Overflow_error, prev_t, v)
          \<or> fst (replay_row pyfloat (map Some header) (speed a) prev_t (dictreader_next header x) v)
               = None
           \<and> output_file (snd (snd (replay_row pyfloat (map Some header) (speed a) prev_t
                (dictreader_next header x) v))) =
               map_option (\<lambda>rs. rs @ [map Text x]) (output_file v)
           \<and> pending (snd (snd (replay_row pyfloat (map Some header) (speed a) prev_t
                (dictreader_next header x) v))) = []"
    if x: "x \<in> set (filter (\<lambda>r. r \<noteq> []) recs)" and v: "pending v = []"
    for x prev_t and v :: world
  proof -
    from assms(2) x have d: "distinct header" and l: "length x = length header"
      by (simp_all add: valid_dataset_def)
    then have ok: "dict_to_list (map Some header) (dictreader_next header x) = Inr (map Text x)"
      by (rule dict_to_list_regular)
    show ?thesis
    proof (cases rule: replay_row_cases [of prev_t pyfloat "dictreader_next header x" "speed a" v "map Some header"])
      case overflow
      then show ?thesis by simp
    next
      case (raised e)
      with ok show ?thesis by simp
    next
      case written
      from written(1) ok have "map (cell_of (dictreader_next header x)) (map Some header) = map Text x"
        by simp
      with written(3) v show ?thesis by simp
    qed
  qed
  with whole show ?thesis by blast
qed

theorem replay_preserves_rows_witness:
  "input_file \<lparr>input_file = Records [[''time'', ''ch1''], [''0'', ''1''], [], [''1'', ''2''], [''3'', ''3'']],
          output_file = None, pending = [], trace = [], sleep_max = 9223372036\<rparr>
     = Records ([''time'', ''ch1''] # [[''0'', ''1''], [], [''1'', ''2''], [''3'', ''3'']])
   \<and> valid_dataset [''time'', ''ch1'']
        (filter (\<lambda>r. r \<noteq> []) [[''0'', ''1''], [], [''1'', ''2''], [''3'', ''3'']])
   \<and> fst (main float_of_digits
         \<lparr>input_path = ''data/historical.csv'', output_path = ''data/live.csv'', speed = 1\<rparr>
         \<lparr>input_file = Records [[''time'', ''ch1''], [''0'', ''1''], [], [''1'', ''2''], [''3'', ''3'']],
          output_file = None, pending = [], trace = [], sleep_max = 9223372036\<rparr>) = Exit 0
   \<and> output_file (snd (main float_of_digits
         \<lparr>input_path = ''data/historical.csv'', output_path = ''data/live.csv'', speed = 1\<rparr>
         \<lparr>input_file = Records [[''time'', ''ch1''], [''0'', ''1''], [], [''1'', ''2''], [''3'', ''3'']],
          output_file = None, pending = [], trace = [], sleep_max = 9223372036\<rparr>)) =
       Some [[Text ''time'', Text ''ch1''], [Text ''0'', Text ''1''], [Text ''1'', Text ''2''],
             [Text ''3'', Text ''3'']]"
proof -
  let ?a = "\<lparr>input_path = ''data/historical.csv'', output_path = ''data/live.csv'', speed = 1\<rparr>"
  let ?w = "\<lparr>input_file = Records [[''time'', ''ch1''], [''0'', ''1''], [], [''1'', ''2''], [''3'', ''3'']],
          output_file = None, pending = [], trace = [], sleep_max = 9223372036\<rparr>"
  have h1: "input_file ?w =
      Records ([''time'', ''ch1''] # [[''0'', ''1''], [], [''1'', ''2''], [''3'', ''3'']])"
    by simp
  have h2: "valid_dataset [''time'', ''ch1'']
        (filter (\<lambda>r. r \<noteq> []) [[''0'', ''1''], [], [''1'', ''2''], [''3'', ''3'']])"
    by (simp add: valid_dataset_def)
  have h3: "fst (main float_of_digits ?a ?w) = Exit 0"
    by (simp add: run_defs)
  from replay_preserves_rows [OF h1 h2 h3] h1 h2 h3 show ?thesis
    by simp
qed

text \<open>
  Claim C3. For a valid dataset the run starts with these effects, in this order: the
  parent directory is made, the output is opened for writing (created or truncated), the
  header record, equal to the input header, is written, flushed and synced. Every pacing
  delay and every data row comes after them. After the sync the output holds exactly the
  header, whatever it held before, and the header is the first record of the final
  output.
\<close>

theorem header_written_first:
  assumes "0 < speed a"
    and "input_file w = Records (header # recs)"
    and "valid_dataset header (filter (\<lambda>r. r \<noteq> []) recs)"
  shows "(\<exists>evs. trace (snd (main pyfloat a w)) =
            trace w @ [Mkdir_parents (output_path a), Open_w (output_path a),
              Write (map Text header), Flush, Fsync] @ evs)
     \<and> output_file (fsync (flush (writeheader (map Some header)
          (open_w (output_path a) (ensure_parent_dir (output_path a) w))))) =
         Some [map Text header]
     \<and> (\<exists>rows. output_file (snd (main pyfloat a w)) = Some (map Text header # rows))"
proof -
  from main_valid_result [OF assms(2,3,1), of pyfloat]
  obtain k evs where tr: "trace (snd (main pyfloat a w)) =
         trace w @ [Mkdir_parents (output_path a), Open_w (output_path a),
           Write (map Text header), Flush, Fsync] @ evs"
    and out: "output_file (snd (main pyfloat a w)) =
         Some (map Text header # map (map Text) (take k (filter (\<lambda>r. r \<noteq> []) recs)))"
    by (elim exE conjE) (rule that, assumption+)
  from tr have "\<exists>evs. trace (snd (main pyfloat a w)) =
            trace w @ [Mkdir_parents (output_path a), Open_w (output_path a),
              Write (map Text header), Flush, Fsync] @ evs"
    by (rule exI)
  moreover have "output_file (fsync (flush (writeheader (map Some header)
          (open_w (output_path a) (ensure_parent_dir (output_path a) w))))) =
         Some [map Text header]"
    by (simp add: effect_defs header_cell_def)
  moreover from out have "\<exists>rows. output_file (snd (main pyfloat a w)) = Some (map Text header # rows)"
    by (rule exI)
  ultimately show ?thesis by blast
qed

theorem header_written_first_witness:
  "(0::real) < speed \<lparr>input_path = ''in.csv'', output_path = ''out.csv'', speed = 2\<rparr>
   \<and> valid_dataset [''time'', ''ch1''] (filter (\<lambda>r. r \<noteq> []) [[''0'', ''1''], [''4'', ''2'']])
   \<and> (\<exists>evs. trace (snd (main float_of_digits
           \<lparr>input_path = ''in.csv'', output_path = ''out.csv'', speed = 2\<rparr>
           \<lparr>input_file = Records [[''time'', ''ch1''], [''0'', ''1''], [''4'', ''2'']],
            output_file = Some [[Text ''stale'']], pending = [], trace = [], sleep_max = 9223372036\<rparr>)) =
         [Mkdir_parents ''out.csv'', Open_w ''out.csv'', Write [Text ''time'', Text ''ch1''],
          Flush, Fsync] @ evs)
   \<and> (\<exists>rows. output_file (snd (main float_of_digits
           \<lparr>input_path = ''in.csv'', output_path = ''out.csv'', speed = 2\<rparr>
           \<lparr>input_file = Records [[''time'', ''ch1''], [''0'', ''1''], [''4'', ''2'']],
            output_file = Some [[Text ''stale'']], pending = [], trace = [], sleep_max = 9223372036\<rparr>)) =
         Some ([Text ''time'', Text ''ch1''] # rows))"
  using header_written_first
    [of "\<lparr>input_path = ''in.csv'', output_path = ''out.csv'', speed = 2\<rparr>"
        "\<lparr>input_file = Records [[''time'', ''ch1''], [''0'', ''1''], [''4'', ''2'']],
            output_file = Some [[Text ''stale'']], pending = [], trace = [], sleep_max = 9223372036\<rparr>"
        "[''time'', ''ch1'']" "[[''0'', ''1''], [''4'', ''2'']]" float_of_digits]
  by (simp add: valid_dataset_def)

text \<open>
  Claim C9. For every run that gets as far as opening the output (any outcome but the
  exit code 2 of a rejected run), the outcome and the final output do not depend on what
  the output held before: the run on any prior content, and the run after a previous run
  with any arguments, end with the same output as the run on the original world. When the
  replay completes, that output is exactly the header record followed by the records of
  this run's rows.
\<close>

theorem rerun_truncates:
  assumes "fst (main pyfloat a w) \<noteq> Exit 2"
  shows "fst (main pyfloat a (w\<lparr>output_file := prior\<rparr>)) = fst (main pyfloat a w)
     \<and> output_file (snd (main pyfloat a (w\<lparr>output_file := prior\<rparr>))) =
         output_file (snd (main pyfloat a w))
     \<and> output_file (snd (main pyfloat a (snd (main pyfloat a' w)))) =
         output_file (snd (main pyfloat a w))
     \<and> (fst (main pyfloat a w) = Exit 0 \<longrightarrow>
          (\<exists>row0 rest. read_all_rows (input_file w) = Inr (row0 # rest)
             \<and> output_file (snd (main pyfloat a w)) =
                 Some (map header_cell (row_keys row0) #
                       map (\<lambda>r. map (cell_of r) (row_keys row0)) (row0 # rest))))"
proof -
  have "input_file w = input_file (w\<lparr>output_file := prior\<rparr>)"
    and "sleep_max w = sleep_max (w\<lparr>output_file := prior\<rparr>)"
    by simp_all
  from main_same_outcome [OF this assms]
  have p1: "fst (main pyfloat a (w\<lparr>output_file := prior\<rparr>)) = fst (main pyfloat a w)
     \<and> output_file (snd (main pyfloat a (w\<lparr>output_file := prior\<rparr>))) =
         output_file (snd (main pyfloat a w))"
    by simp
  have "input_file w = input_file (snd (main pyfloat a' w))"
    and "sleep_max w = sleep_max (snd (main pyfloat a' w))"
    by (simp_all add: main_input_file main_sleep_max)
  from main_same_outcome [OF this assms]
  have p2: "output_file (snd (main pyfloat a (snd (main pyfloat a' w)))) =
         output_file (snd (main pyfloat a w))"
    by simp
  from assms obtain row0 rest where l: "0 < speed a"
    "read_all_rows (input_file w) = Inr (row0 # rest)" "Some ''time'' \<in> set (row_keys row0)"
    by (rule main_not_rejected)
  from main_loaded_result [OF l, of pyfloat]
  obtain k where fin: "fst (main pyfloat a w) = Exit 0 \<longrightarrow> k = length (row0 # rest)"
    and out: "output_file (snd (main pyfloat a w)) =
         Some (map header_cell (row_keys row0) #
               map (\<lambda>r. map (cell_of r) (row_keys row0)) (take k (row0 # rest)))"
    by (elim exE conjE) (rule that, assumption+)
  have p3: "fst (main pyfloat a w) = Exit 0 \<longrightarrow>
          (\<exists>row0 rest. read_all_rows (input_file w) = Inr (row0 # rest)
             \<and> output_file (snd (main pyfloat a w)) =
                 Some (map header_cell (row_keys row0) #
                       map (\<lambda>r. map (cell_of r) (row_keys row0)) (row0 # rest)))"
  proof
    assume "fst (main pyfloat a w) = Exit 0"
    with fin out have "output_file (snd (main pyfloat a w)) =
         Some (map header_cell (row_keys row0) #
               map (\<lambda>r. map (cell_of r) (row_keys row0)) (row0 # rest))"
      by simp
    with l(2) show "\<exists>row0 rest. read_all_rows (input_file w) = Inr (row0 # rest)
             \<and> output_file (snd (main pyfloat a w)) =
                 Some (map header_cell (row_keys row0) #
                       map (\<lambda>r. map (cell_of r) (row_keys row0)) (row0 # rest))"
      by blast
  qed
  from p1 p2 p3 show ?thesis by simp
qed

theorem rerun_truncates_witness:
  "fst (main float_of_digits \<lparr>input_path = ''in.csv'', output_path = ''out.csv'', speed = 1\<rparr>
         \<lparr>input_file = Records [[''time'', ''ch1''], [''0'', ''1''], [''1'', ''2'']],
          output_file = None, pending = [], trace = [], sleep_max = 9223372036\<rparr>) \<noteq> Exit 2
   \<and> output_file (snd (main float_of_digits
         \<lparr>input_path = ''in.csv'', output_path = ''out.csv'', speed = 1\<rparr>
         (\<lparr>input_file = Records [[''time'', ''ch1''], [''0'', ''1''], [''1'', ''2'']],
           output_file = None, pending = [], trace = [], sleep_max = 9223372036\<rparr>
          \<lparr>output_file := Some [[Text ''time'', Text ''ch1''], [Text ''9'', Text ''9'']]\<rparr>))) =
       Some [[Text ''time'', Text ''ch1''], [Text ''0'', Text ''1''], [Text ''1'', Text ''2'']]
   \<and> output_file (snd (main float_of_digits
         \<lparr>input_path = ''in.csv'', output_path = ''out.csv'', speed = 1\<rparr>
         (snd (main float_of_digits
           \<lparr>input_path = ''in.csv'', output_path = ''out.csv'', speed = 2\<rparr>
           \<lparr>input_file = Records [[''time'', ''ch1''], [''0'', ''1''], [''1'', ''2'']],
            output_file = None, pending = [], trace = [], sleep_max = 9223372036\<rparr>)))) =
       Some [[Text ''time'', Text ''ch1''], [Text ''0'', Text ''1''], [Text ''1'', Text ''2'']]"
proof -
  let ?a = "\<lparr>input_path = ''in.csv'', output_path = ''out.csv'', speed = 1\<rparr>"
  let ?w = "\<lparr>input_file = Records [[''time'', ''ch1''], [''0'', ''1''], [''1'', ''2'']],
          output_file = None, pending = [], trace = [], sleep_max = 9223372036\<rparr>"
  have run: "fst (main float_of_digits ?a ?w) = Exit 0"
    "output_file (snd (main float_of_digits ?a ?w)) =
       Some [[Text ''time'', Text ''ch1''], [Text ''0'', Text ''1''], [Text ''1'', Text ''2'']]"
    by (simp_all add: run_defs)
  then have h: "fst (main float_of_digits ?a ?w) \<noteq> Exit 2" by simp
  note t = rerun_truncates [OF h,
      of "Some [[Text ''time'', Text ''ch1''], [Text ''9'', Text ''9'']]"
         "\<lparr>input_path = ''in.csv'', output_path = ''out.csv'', speed = 2\<rparr>"]
  note prior = t [THEN conjunct2, THEN conjunct1]
  note rerun = t [THEN conjunct2, THEN conjunct2, THEN conjunct1]
  from h prior rerun run(2) show ?thesis
    by (simp only:) simp
qed

text \<open>
  Claim C10. Two completed replays of the same input that differ only in their speed
  leave the same output content, with nothing unflushed: the speed changes the sleeps,
  never the records written.
\<close>

theorem speed_changes_timing_only:
  assumes "fst (main pyfloat (a\<lparr>speed := s1\<rparr>) w) = Exit 0"
    and "fst (main pyfloat (a\<lparr>speed := s2\<rparr>) w) = Exit 0"
  shows "output_file (snd (main pyfloat (a\<lparr>speed := s1\<rparr>) w)) =
         output_file (snd (main pyfloat (a\<lparr>speed := s2\<rparr>) w))
     \<and> pending (snd (main pyfloat (a\<lparr>speed := s1\<rparr>) w)) =
         pending (snd (main pyfloat (a\<lparr>speed := s2\<rparr>) w))"
proof -
  have out: "\<exists>row0 rest. read_all_rows (input_file w) = Inr (row0 # rest)
       \<and> output_file (snd (main pyfloat b w)) =
           Some (map header_cell (row_keys row0) #
                 map (\<lambda>r. map (cell_of r) (row_keys row0)) (row0 # rest))
       \<and> pending (snd (main pyfloat b w)) = []"
    if b: "fst (main pyfloat b w) = Exit 0" for b
  proof -
    from b have "fst (main pyfloat b w) \<noteq> Exit 2" by simp
    then obtain row0 rest where l: "0 < speed b"
      "read_all_rows (input_file w) = Inr (row0 # rest)" "Some ''time'' \<in> set (row_keys row0)"
      by (rule main_not_rejected)
    from main_loaded_result [OF l, of pyfloat]
    obtain k where fin: "fst (main pyfloat b w) = Exit 0 \<longrightarrow> k = length (row0 # rest)"
      and out: "output_file (snd (main pyfloat b w)) =
         Some (map header_cell (row_keys row0) #
               map (\<lambda>r. map (cell_of r) (row_keys row0)) (take k (row0 # rest)))"
      and pend: "pending (snd (main pyfloat b w)) = []"
      by (elim exE conjE) (rule that, assumption+)
    from b fin out have "output_file (snd (main pyfloat b w)) =
           Some (map header_cell (row_keys row0) #
                 map (\<lambda>r. map (cell_of r) (row_keys row0)) (row0 # rest))"
      by simp
    with l(2) pend show ?thesis by blast
  qed
  from out [OF assms(1)] out [OF assms(2)] show ?thesis by auto
qed

theorem speed_changes_timing_only_witness:
  "fst (main float_of_digits
        (\<lparr>input_path = ''in.csv'', output_path = ''out.csv'', speed = 1\<rparr>\<lparr>speed := 1\<rparr>)
        \<lparr>input_file = Records [[''time'', ''ch1''], [''0'', ''1''], [''8'', ''2'']],
         output_file = None, pending = [], trace = [], sleep_max = 9223372036\<rparr>) = Exit 0
   \<and> fst (main float_of_digits
        (\<lparr>input_path = ''in.csv'', output_path = ''out.csv'', speed = 1\<rparr>\<lparr>speed := 4\<rparr>)
        \<lparr>input_file = Records [[''time'', ''ch1''], [''0'', ''1''], [''8'', ''2'']],
         output_file = None, pending = [], trace = [], sleep_max = 9223372036\<rparr>) = Exit 0
   \<and> output_file (snd (main float_of_digits
        (\<lparr>input_path = ''in.csv'', output_path = ''out.csv'', speed = 1\<rparr>\<lparr>speed := 1\<rparr>)
        \<lparr>input_file = Records [[''time'', ''ch1''], [''0'', ''1''], [''8'', ''2'']],
         output_file = None, pending = [], trace = [], sleep_max = 9223372036\<rparr>))
     = output_file (snd (main float_of_digits
        (\<lparr>input_path = ''in.csv'', output_path = ''out.csv'', speed = 1\<rparr>\<lparr>speed := 4\<rparr>)
        \<lparr>input_file = Records [[''time'', ''ch1''], [''0'', ''1''], [''8'', ''2'']],
         output_file = None, pending = [], trace = [], sleep_max = 9223372036\<rparr>))"
proof -
  let ?a = "\<lparr>input_path = ''in.csv'', output_path = ''out.csv'', speed = 1\<rparr>"
  let ?w = "\<lparr>input_file = Records [[''time'', ''ch1''], [''0'', ''1''], [''8'', ''2'']],
         output_file = None, pending = [], trace = [], sleep_max = 9223372036\<rparr>"
  have h1: "fst (main float_of_digits (?a\<lparr>speed := 1\<rparr>) ?w) = Exit 0"
    by (simp add: run_defs)
  have h2: "fst (main float_of_digits (?a\<lparr>speed := 4\<rparr>) ?w) = Exit 0"
    by (simp add: run_defs)
  note t = speed_changes_timing_only [OF h1 h2]
  from h1 h2 t [THEN conjunct1] show ?thesis
    by (intro conjI)
qed

end
